theory Spec2Isabelle
  imports Complex_Main
begin

section \<open>External reference validation of spec-up-t\<close>

text \<open>
  A shallow embedding of the browser-side validator of external references
  (\<^verbatim>\<open>validate-external-refs.js\<close>) and of the build-time collaborator
  \<^verbatim>\<open>prepare-tref.js\<close>. JavaScript strings are sequences of UTF-16 code units; where
  a function only compares code units it is modelled over an arbitrary element type.
\<close>

subsection \<open>JavaScript strings\<close>

text \<open>
  A string is the list of its UTF-16 code units, which is what \<^verbatim>\<open>length\<close>,
  \<^verbatim>\<open>charAt\<close>, \<^verbatim>\<open>===\<close> and the regular expressions of the sources work on. \<open>js\<close>
  writes an ASCII literal.
\<close>

type_synonym jschar = nat
type_synonym jsstring = "jschar list"

definition js :: "string \<Rightarrow> jsstring" where
  "js s = map of_char s"

text \<open>
  The characters that \<^verbatim>\<open>\s\<close> matches and \<^verbatim>\<open>trim()\<close> strips: the white space and
  line terminators of ECMAScript, U+FEFF among them. The character classes
  of zero-width characters (U+200B to U+200D and U+FEFF) and of punctuation
  (\<^verbatim>\<open>[.,;:!?]\<close>) of \<^verbatim>\<open>normalizeContent\<close> follow.
\<close>

definition is_whitespace :: "jschar \<Rightarrow> bool" where
  "is_whitespace c \<longleftrightarrow>
     c = 9 \<or> c = 10 \<or> c = 11 \<or> c = 12 \<or> c = 13 \<or> c = 32 \<or> c = 160 \<or> c = 5760
     \<or> (8192 \<le> c \<and> c \<le> 8202) \<or> c = 8232 \<or> c = 8233 \<or> c = 8239 \<or> c = 8287
     \<or> c = 12288 \<or> c = 65279"

definition is_zero_width :: "jschar \<Rightarrow> bool" where
  "is_zero_width c \<longleftrightarrow> (8203 \<le> c \<and> c \<le> 8205) \<or> c = 65279"

definition is_punctuation :: "jschar \<Rightarrow> bool" where
  "is_punctuation c \<longleftrightarrow> c = 46 \<or> c = 44 \<or> c = 59 \<or> c = 58 \<or> c = 33 \<or> c = 63"

definition trim :: "jsstring \<Rightarrow> jsstring" where
  "trim s = rev (dropWhile is_whitespace (rev (dropWhile is_whitespace s)))"

text \<open>
  The three replacements of \<^verbatim>\<open>normalizeContent\<close>. \<^verbatim>\<open>replace(/\s+/g, ' ')\<close> turns every
  maximal run of white space into one space. \<^verbatim>\<open>replace(/\s*([.,;:!?])\s*/g, '$1 ')\<close>
  scans from the left: where white space (possibly none) is followed by a punctuation
  character, the match is the white space, the character and the white space after it,
  and is replaced by the character and one space; elsewhere the code unit is copied.
\<close>

definition removeZeroWidth :: "jsstring \<Rightarrow> jsstring" where
  "removeZeroWidth s = filter (\<lambda>c. \<not> is_zero_width c) s"

function collapseWhitespace :: "jsstring \<Rightarrow> jsstring" where
  "collapseWhitespace [] = []"
| "collapseWhitespace (c # cs) =
     (if is_whitespace c then 32 # collapseWhitespace (dropWhile is_whitespace cs)
      else c # collapseWhitespace cs)"
  by pat_completeness auto
termination
  by (relation "measure length") (auto simp add: length_dropWhile_le less_Suc_eq_le)

function punctuationSpacing :: "jsstring \<Rightarrow> jsstring" where
  "punctuationSpacing [] = []"
| "punctuationSpacing (c # cs) =
     (case dropWhile is_whitespace (c # cs) of
        [] \<Rightarrow> c # punctuationSpacing cs
      | p # rest \<Rightarrow>
          if is_punctuation p then p # 32 # punctuationSpacing (dropWhile is_whitespace rest)
          else c # punctuationSpacing cs)"
  by pat_completeness auto
termination
proof (relation "measure length", goal_cases)
  case 1 show ?case by simp
next
  case (2 c cs) show ?case by simp
next
  case (3 c cs p rest)
  have "length (dropWhile is_whitespace (c # cs)) \<le> length (c # cs)"
    by (rule length_dropWhile_le)
  moreover have "length (dropWhile is_whitespace rest) \<le> length rest"
    by (rule length_dropWhile_le)
  ultimately show ?case using 3 by simp
next
  case (4 c cs p rest) show ?case by simp
qed

text \<open>
  Two strings that differ only in the extent of their white-space runs: where one has a
  run of white space the other has one too, of any length, and everything else is equal.
  \<open>is_blank\<close> is white space that is not zero-width, that is, any white space but U+FEFF.
\<close>

function same_up_to_whitespace :: "(jschar \<Rightarrow> bool) \<Rightarrow> jsstring \<Rightarrow> jsstring \<Rightarrow> bool" where
  "same_up_to_whitespace ws [] [] = True"
| "same_up_to_whitespace ws (a # as) [] = False"
| "same_up_to_whitespace ws [] (b # bs) = False"
| "same_up_to_whitespace ws (a # as) (b # bs) =
     (if ws a \<and> ws b then same_up_to_whitespace ws (dropWhile ws as) (dropWhile ws bs)
      else a = b \<and> same_up_to_whitespace ws as bs)"
  by pat_completeness auto
termination
  by (relation "measure (\<lambda>(ws, a, b). length a)") (auto simp add: length_dropWhile_le less_Suc_eq_le)

definition is_blank :: "jschar \<Rightarrow> bool" where
  "is_blank c \<longleftrightarrow> is_whitespace c \<and> \<not> is_zero_width c"

subsection \<open>Similarity scorer\<close>

text \<open>
  \<^verbatim>\<open>matrix[i][j] = v\<close> on a JavaScript array: an index inside the array overwrites
  the cell, the index \<open>length\<close> appends. The loops of \<^verbatim>\<open>levenshteinDistance\<close>
  write at no other index.
\<close>

definition array_set :: "'a list \<Rightarrow> nat \<Rightarrow> 'a \<Rightarrow> 'a list" where
  "array_set xs i v = (if i < length xs then xs[i := v] else xs @ [v])"

text \<open>
  The two initialisation loops of \<^verbatim>\<open>levenshteinDistance\<close>:
  \<^verbatim>\<open>matrix[i] = [i]\<close> for \<open>i \<le> str2.length\<close>, then \<^verbatim>\<open>matrix[0][j] = j\<close> for
  \<open>j \<le> str1.length\<close>.
\<close>

definition init_matrix :: "'a list \<Rightarrow> 'a list \<Rightarrow> nat list list" where
  "init_matrix str1 str2 =
     (let matrix = fold (\<lambda>i m. array_set m i [i]) [0..<Suc (length str2)] []
      in fold (\<lambda>j m. array_set m 0 (array_set (m ! 0) j j)) [0..<Suc (length str1)] matrix)"

text \<open>The body of the inner loop: the assignment to \<^verbatim>\<open>matrix[i][j]\<close>.\<close>

definition lev_step :: "'a list \<Rightarrow> 'a list \<Rightarrow> nat \<Rightarrow> nat \<Rightarrow> nat list list \<Rightarrow> nat list list" where
  "lev_step str1 str2 i j matrix =
     (if str2 ! (i - 1) = str1 ! (j - 1)
      then array_set matrix i (array_set (matrix ! i) j (matrix ! (i - 1) ! (j - 1)))
      else array_set matrix i (array_set (matrix ! i) j
             (min (matrix ! (i - 1) ! (j - 1) + 1)
                  (min (matrix ! i ! (j - 1) + 1) (matrix ! (i - 1) ! j + 1)))))"

definition levenshteinDistance :: "'a list \<Rightarrow> 'a list \<Rightarrow> nat" where
  "levenshteinDistance str1 str2 =
     (let matrix = fold (\<lambda>i m. fold (lev_step str1 str2 i) [1..<Suc (length str1)] m)
                     [1..<Suc (length str2)] (init_matrix str1 str2)
      in matrix ! length str2 ! length str1)"

text \<open>
  \<^verbatim>\<open>calculateSimilarity\<close> divides two integers below \<open>2^53\<close>; the quotient is kept
  exact as a rational number.
\<close>

definition calculateSimilarity :: "'a list \<Rightarrow> 'a list \<Rightarrow> rat" where
  "calculateSimilarity str1 str2 =
     (if str1 = str2 then 1
      else if str1 = [] \<or> str2 = [] then 0
      else let longer = (if length str1 > length str2 then str1 else str2);
               shorter = (if length str1 > length str2 then str2 else str1)
           in if length longer = 0 then 1
              else let editDistance = levenshteinDistance shorter longer
                   in (of_nat (length longer) - of_nat editDistance) / of_nat (length longer))"

text \<open>
  The edit distance as the specification words it: the classic dynamic-programming
  recurrence, where substitution, insertion and deletion cost 1 each and the cells on the
  two edges of the matrix hold their index. \<open>lev_spec s t i j\<close> is the cell for the first
  \<open>i\<close> code units of \<open>t\<close> and the first \<open>j\<close> code units of \<open>s\<close>.
\<close>

fun lev_spec :: "'a list \<Rightarrow> 'a list \<Rightarrow> nat \<Rightarrow> nat \<Rightarrow> nat" where
  "lev_spec s t 0 j = j"
| "lev_spec s t (Suc i) 0 = Suc i"
| "lev_spec s t (Suc i) (Suc j) =
     min (lev_spec s t i j + (if t ! i = s ! j then 0 else 1))
         (min (lev_spec s t (Suc i) j + 1) (lev_spec s t i (Suc j) + 1))"

definition levenshtein_spec :: "'a list \<Rightarrow> 'a list \<Rightarrow> nat" where
  "levenshtein_spec s t = lev_spec s t (length t) (length s)"

text \<open>Row \<open>i\<close> of the matrix up to column \<open>k\<close>, and the matrix after \<open>k\<close> rounds of the outer loop.\<close>

definition lev_row :: "'a list \<Rightarrow> 'a list \<Rightarrow> nat \<Rightarrow> nat \<Rightarrow> nat list" where
  "lev_row s t i k = map (lev_spec s t i) [0..<Suc k]"

definition lev_matrix :: "'a list \<Rightarrow> 'a list \<Rightarrow> nat \<Rightarrow> nat list list" where
  "lev_matrix s t k = map (\<lambda>r. if r \<le> k then lev_row s t r (length s) else [r]) [0..<Suc (length t)]"

subsection \<open>DOM and term extraction\<close>

text \<open>
  \<^verbatim>\<open>s.split(sep)\<close> for a separator of one code unit, and \<^verbatim>\<open>parts.join(sep)\<close>.
\<close>

fun split_on :: "'a \<Rightarrow> 'a list \<Rightarrow> 'a list list" where
  "split_on sep [] = [[]]"
| "split_on sep (c # cs) =
     (if c = sep then [] # split_on sep cs
      else (case split_on sep cs of [] \<Rightarrow> [[c]] | w # ws \<Rightarrow> (c # w) # ws))"

fun join :: "'a list \<Rightarrow> 'a list list \<Rightarrow> 'a list" where
  "join sep [] = []"
| "join sep [x] = x"
| "join sep (x # y # ys) = x @ sep @ join sep (y # ys)"

text \<open>
  A DOM tree: text nodes, and elements with their \<^verbatim>\<open>tagName\<close> (upper case in an HTML
  document), attributes and children. \<^verbatim>\<open>classList\<close> is the \<^verbatim>\<open>class\<close> attribute split at
  ASCII white space. \<open>querySelector P nodes\<close> is the first element in document order,
  among the given nodes and their descendants, that satisfies \<open>P\<close>.
\<close>

datatype node =
    Text jsstring
  | Element (tagName: jsstring) (attributes: "(jsstring \<times> jsstring) list") (childNodes: "node list")

fun textContent :: "node \<Rightarrow> jsstring" where
  "textContent (Text s) = s"
| "textContent (Element tag attrs kids) = concat (map textContent kids)"

definition getAttribute :: "node \<Rightarrow> jsstring \<Rightarrow> jsstring option" where
  "getAttribute n name = (case n of Text s \<Rightarrow> None | Element tag attrs kids \<Rightarrow> map_of attrs name)"

definition is_ascii_whitespace :: "jschar \<Rightarrow> bool" where
  "is_ascii_whitespace c \<longleftrightarrow> c = 9 \<or> c = 10 \<or> c = 12 \<or> c = 13 \<or> c = 32"

fun tokens :: "jsstring \<Rightarrow> jsstring list" where
  "tokens [] = [[]]"
| "tokens (c # cs) =
     (if is_ascii_whitespace c then [] # tokens cs
      else (case tokens cs of [] \<Rightarrow> [[c]] | w # ws \<Rightarrow> (c # w) # ws))"

definition classList :: "node \<Rightarrow> jsstring list" where
  "classList n = (case getAttribute n (js ''class'') of
                    None \<Rightarrow> [] | Some v \<Rightarrow> filter (\<lambda>t. t \<noteq> []) (tokens v))"

definition classList_contains :: "node \<Rightarrow> jsstring \<Rightarrow> bool" where
  "classList_contains n c \<longleftrightarrow> c \<in> set (classList n)"

fun querySelector :: "(node \<Rightarrow> bool) \<Rightarrow> node list \<Rightarrow> node option" where
  "querySelector P [] = None"
| "querySelector P (Text s # rest) = querySelector P rest"
| "querySelector P (Element tag attrs kids # rest) =
     (if P (Element tag attrs kids) then Some (Element tag attrs kids)
      else (case querySelector P kids of
              Some n \<Rightarrow> Some n
            | None \<Rightarrow> querySelector P rest))"

text \<open>
  The entries of the live term mapping, and the builtins of the browser that the
  validator calls: \<^verbatim>\<open>String.prototype.toLowerCase\<close>, the HTML parser behind
  \<^verbatim>\<open>innerHTML\<close> (the children of the element assigned to) and behind \<^verbatim>\<open>DOMParser\<close> (the
  root element of the document), the serialiser behind \<^verbatim>\<open>outerHTML\<close>, and
  \<^verbatim>\<open>Number.prototype.toFixed\<close>. They are parameters of the model.
\<close>

record live_term =
  content :: jsstring
  rawContent :: jsstring
  termId :: jsstring

type_synonym live_terms = "jsstring \<rightharpoonup> live_term"

record browser =
  toLowerCase :: "jsstring \<Rightarrow> jsstring"
  parseFragment :: "jsstring \<Rightarrow> node list"
  parseDocument :: "jsstring \<Rightarrow> node"
  outerHTML :: "node \<Rightarrow> jsstring"
  toFixed :: "rat \<Rightarrow> nat \<Rightarrow> jsstring"

text \<open>
  \<^verbatim>\<open>doc.querySelectorAll('dl.terms-and-definitions-list dt')\<close>: the \<^verbatim>\<open>dt\<close> elements with
  an ancestor \<^verbatim>\<open>dl\<close> of that class, in document order, each with the nodes that follow
  it under its parent (\<open>inList\<close> tells whether such an ancestor has been passed).
\<close>

definition is_terms_list :: "node \<Rightarrow> bool" where
  "is_terms_list n \<longleftrightarrow>
     (case n of Text s \<Rightarrow> False
      | Element tag attrs kids \<Rightarrow>
          tag = js ''DL'' \<and> classList_contains n (js ''terms-and-definitions-list''))"

fun termElements :: "bool \<Rightarrow> node list \<Rightarrow> (node \<times> node list) list" where
  "termElements inList [] = []"
| "termElements inList (Text s # rest) = termElements inList rest"
| "termElements inList (Element tag attrs kids # rest) =
     (if inList \<and> tag = js ''DT'' then [(Element tag attrs kids, rest)] else [])
     @ termElements (inList \<or> is_terms_list (Element tag attrs kids)) kids
     @ termElements inList rest"

text \<open>
  The selector \<^verbatim>\<open>[id^="term:"]\<close>, the \<^verbatim>\<open>id\<close> of an element, and the loop over
  \<^verbatim>\<open>nextElementSibling\<close> that collects the \<^verbatim>\<open>dd\<close> elements after a \<^verbatim>\<open>dt\<close>, leaving out
  the meta-info wrappers, until an element that is not a \<^verbatim>\<open>dd\<close>.
\<close>

definition has_term_id :: "node \<Rightarrow> bool" where
  "has_term_id n \<longleftrightarrow>
     (case getAttribute n (js ''id'') of None \<Rightarrow> False | Some v \<Rightarrow> take 5 v = js ''term:'')"

definition node_id :: "node \<Rightarrow> jsstring" where
  "node_id n = (case getAttribute n (js ''id'') of None \<Rightarrow> [] | Some v \<Rightarrow> v)"

fun ddElements :: "node list \<Rightarrow> node list" where
  "ddElements [] = []"
| "ddElements (Text s # rest) = ddElements rest"
| "ddElements (Element tag attrs kids # rest) =
     (if tag = js ''DD''
      then (if \<not> classList_contains (Element tag attrs kids) (js ''meta-info-content-wrapper'')
            then [Element tag attrs kids] else []) @ ddElements rest
      else [])"

text \<open>
  The body of the \<^verbatim>\<open>forEach\<close> of \<^verbatim>\<open>extractTermsFromHtml\<close> for one \<^verbatim>\<open>dt\<close>: the key and the
  entry it stores, or nothing when the \<^verbatim>\<open>dt\<close> has no descendant with a term id.
\<close>

definition term_entry :: "browser \<Rightarrow> node \<times> node list \<Rightarrow> (jsstring \<times> live_term) option" where
  "term_entry B = (\<lambda>(dt, siblings).
     (case querySelector has_term_id (childNodes dt) of
        None \<Rightarrow> None
      | Some termSpan \<Rightarrow>
          let termId = node_id termSpan;
              termName = last (split_on 58 termId);
              dds = ddElements siblings;
              rawContent = (if length dds > 0 then join [10] (map (outerHTML B) dds) else []);
              definitionContent = (if length dds > 0 then join [10] (map textContent dds) else [])
          in Some (toLowerCase B termName,
                   \<lparr>content = trim definitionContent, rawContent = rawContent, termId = termId\<rparr>)))"

definition extractTermsFromHtml :: "browser \<Rightarrow> jsstring \<Rightarrow> live_terms" where
  "extractTermsFromHtml B html =
     fold (\<lambda>dt terms. case term_entry B dt of None \<Rightarrow> terms | Some (k, e) \<Rightarrow> terms(k \<mapsto> e))
       (termElements False [parseDocument B html]) Map.empty"

text \<open>
  The fetch cache and the configuration. The \<^verbatim>\<open>data\<close> of a cache entry is a JavaScript
  value: \<open>None\<close> stands for \<^verbatim>\<open>null\<close>.
\<close>

record cache_entry =
  timestamp :: int
  data :: "live_terms option"

record validator_config =
  showValidIndicators :: bool
  cacheTimeout :: int
  similarityThreshold :: rat
  debug :: bool

definition VALIDATOR_CONFIG :: validator_config where
  "VALIDATOR_CONFIG = \<lparr>showValidIndicators = False, cacheTimeout = 5 * 60 * 1000,
     similarityThreshold = 95 / 100, debug = True\<rparr>"

text \<open>
  What \<^verbatim>\<open>await fetch(...)\<close> gives: a rejection, or a response with its status and its
  body, \<open>None\<close> when \<^verbatim>\<open>response.text()\<close> rejects; \<^verbatim>\<open>response.ok\<close> is a status from 200
  to 299. The state holds the cache and the list of the requests issued.
  \<open>fetch_uncached\<close> is the \<^verbatim>\<open>try\<close> block of \<^verbatim>\<open>fetchExternalSpec\<close>; \<open>now\<close> and \<open>now'\<close>
  are the readings of \<^verbatim>\<open>Date.now()\<close> at the cache check and at the store.
\<close>

datatype response = NetworkError | Response (status: nat) (body: "jsstring option")

definition response_ok :: "nat \<Rightarrow> bool" where
  "response_ok st \<longleftrightarrow> 200 \<le> st \<and> st \<le> 299"

record fetch_state =
  fetchCache :: "jsstring \<rightharpoonup> cache_entry"
  requests :: "jsstring list"

definition fetch_uncached ::
  "browser \<Rightarrow> response \<Rightarrow> int \<Rightarrow> jsstring \<Rightarrow> fetch_state \<Rightarrow> live_terms option \<times> fetch_state" where
  "fetch_uncached B resp now' ghPageUrl st =
     (let st1 = st\<lparr>requests := requests st @ [ghPageUrl]\<rparr>
      in case resp of
           NetworkError \<Rightarrow> (None, st1)
         | Response code text \<Rightarrow>
             if \<not> response_ok code then (None, st1)
             else (case text of
                     None \<Rightarrow> (None, st1)
                   | Some html \<Rightarrow>
                       let terms = extractTermsFromHtml B html
                       in (Some terms,
                           st1\<lparr>fetchCache := (fetchCache st1)(ghPageUrl \<mapsto>
                                  \<lparr>timestamp = now', data = Some terms\<rparr>)\<rparr>)))"

definition fetchExternalSpec ::
  "browser \<Rightarrow> validator_config \<Rightarrow> int \<Rightarrow> response \<Rightarrow> int \<Rightarrow> jsstring \<Rightarrow> fetch_state
     \<Rightarrow> live_terms option \<times> fetch_state" where
  "fetchExternalSpec B cfg now resp now' ghPageUrl st =
     (case fetchCache st ghPageUrl of
        Some cached \<Rightarrow>
          if now - timestamp cached < cacheTimeout cfg then (data cached, st)
          else fetch_uncached B resp now' ghPageUrl st
      | None \<Rightarrow> fetch_uncached B resp now' ghPageUrl st)"

subsection \<open>Validator\<close>

text \<open>
  \<^verbatim>\<open>text.split(/\n+/)\<close>: the pieces between the maximal runs of newlines.
\<close>

function split_newlines :: "jsstring \<Rightarrow> jsstring list" where
  "split_newlines s =
     takeWhile (\<lambda>c. c \<noteq> 10) s #
       (case dropWhile (\<lambda>c. c \<noteq> 10) s of
          [] \<Rightarrow> []
        | nl # rest \<Rightarrow> split_newlines (dropWhile (\<lambda>c. c = 10) rest))"
  by pat_completeness auto
termination
proof (relation "measure length", goal_cases)
  case 1 show ?case by simp
next
  case (2 s nl rest)
  have "length (dropWhile (\<lambda>c. c \<noteq> 10) s) \<le> length s" by (rule length_dropWhile_le)
  moreover have "length (dropWhile (\<lambda>c. c = 10) rest) \<le> length rest" by (rule length_dropWhile_le)
  ultimately show ?case using 2 by simp
qed

record text_diff =
  oldUnique :: jsstring
  newUnique :: jsstring
  hasDifferences :: bool

definition findTextDifferences :: "jsstring \<Rightarrow> jsstring \<Rightarrow> text_diff" where
  "findTextDifferences text1 text2 =
     (let lines1 = filter (\<lambda>line. trim line \<noteq> []) (split_newlines text1);
          lines2 = filter (\<lambda>line. trim line \<noteq> []) (split_newlines text2);
          oldU = filter (\<lambda>line. line \<notin> set lines2) lines1;
          newU = filter (\<lambda>line. line \<notin> set lines1) lines2
      in \<lparr>oldUnique = (if length oldU > 0 then join [10] oldU else js ''(no removed content)''),
          newUnique = (if length newU > 0 then join [10] newU else js ''(no added content)''),
          hasDifferences = (length oldU > 0 \<or> length newU > 0)\<rparr>)"

text \<open>
  \<^verbatim>\<open>escapeHtml\<close> serialises a text node (the escapes of HTML serialisation), and
  \<^verbatim>\<open>truncateText\<close> cuts a text after \<open>maxLength\<close> code units.
\<close>

definition escapeHtml :: "jsstring \<Rightarrow> jsstring" where
  "escapeHtml text = concat (map (\<lambda>c.
       if c = 38 then js ''&amp;''
       else if c = 160 then js ''&nbsp;''
       else if c = 60 then js ''&lt;''
       else if c = 62 then js ''&gt;''
       else [c]) text)"

definition truncateText :: "jsstring option \<Rightarrow> nat \<Rightarrow> jsstring" where
  "truncateText text maxLength =
     (case text of
        None \<Rightarrow> []
      | Some t \<Rightarrow> if t = [] \<or> length t \<le> maxLength then t else take maxLength t @ js ''...'')"

text \<open>
  \<^verbatim>\<open>createIndicator(type, details)\<close>: the indicator element with its classes, title, icon
  and, for a changed or missing term, the details panel whose markup is parsed from the
  template of the source. \<open>truthy\<close> is the truth value of a string that may be
  \<^verbatim>\<open>undefined\<close>.
\<close>

datatype indicator_type = missing | changed | valid | error

record details =
  message :: "jsstring option"
  oldContent :: "jsstring option"
  newContent :: "jsstring option"
  similarity :: "jsstring option"

definition no_details :: details where
  "no_details = \<lparr>message = None, oldContent = None, newContent = None, similarity = None\<rparr>"

definition indicator_class :: jsstring where
  "indicator_class = js ''external-ref-validation-indicator''"

definition class_of_type :: "indicator_type \<Rightarrow> jsstring" where
  "class_of_type ty = (case ty of
       missing \<Rightarrow> js ''external-ref-missing''
     | changed \<Rightarrow> js ''external-ref-changed''
     | valid \<Rightarrow> js ''external-ref-valid''
     | error \<Rightarrow> js ''external-ref-error'')"

definition label_of_type :: "indicator_type \<Rightarrow> jsstring" where
  "label_of_type ty = (case ty of
       missing \<Rightarrow> [9888, 65039] @ js '' Term not found''
     | changed \<Rightarrow> [55357, 56580] @ js '' Definition changed''
     | valid \<Rightarrow> [10003] @ js '' Verified''
     | error \<Rightarrow> [10060] @ js '' Could not verify'')"

definition truthy :: "jsstring option \<Rightarrow> bool" where
  "truthy v \<longleftrightarrow> (case v of None \<Rightarrow> False | Some s \<Rightarrow> s \<noteq> [])"

definition changed_diff_markup :: "jsstring \<Rightarrow> text_diff \<Rightarrow> jsstring" where
  \<open>changed_diff_markup similarityText diff = concat
      [[10],
       js ''                <div class="validation-details-header">Definition Changed - Showing Differences</div>'',
       [10],
       js ''                '',
       similarityText,
       [10],
       js ''                <div class="validation-details-section">'',
       [10],
       js ''                    <strong>Removed from cached version:</strong>'',
       [10],
       js ''                    <div class="validation-content-old">'',
       escapeHtml (truncateText (Some (oldUnique diff)) 300),
       js ''</div>'',
       [10],
       js ''                </div>'',
       [10],
       js ''                <div class="validation-details-section">'',
       [10],
       js ''                    <strong>Added in live version:</strong>'',
       [10],
       js ''                    <div class="validation-content-new">'',
       escapeHtml (truncateText (Some (newUnique diff)) 300),
       js ''</div>'',
       [10],
       js ''                </div>'',
       [10],
       js ''                <div class="validation-details-footer">'',
       [10],
       js ''                    <em>Rebuild the spec to update the definition</em>'',
       [10],
       js ''                </div>'',
       [10],
       js ''            '']\<close>

definition changed_full_markup :: "jsstring \<Rightarrow> details \<Rightarrow> jsstring" where
  \<open>changed_full_markup similarityText details = concat
      [[10],
       js ''                <div class="validation-details-header">Definition Changed</div>'',
       [10],
       js ''                '',
       similarityText,
       [10],
       js ''                <div class="validation-details-section">'',
       [10],
       js ''                    <strong>Cached (at build time):</strong>'',
       [10],
       js ''                    <div class="validation-content-old">'',
       escapeHtml (truncateText (oldContent details) 500),
       js ''</div>'',
       [10],
       js ''                </div>'',
       [10],
       js ''                <div class="validation-details-section">'',
       [10],
       js ''                    <strong>Current (live):</strong>'',
       [10],
       js ''                    <div class="validation-content-new">'',
       escapeHtml (truncateText (newContent details) 500),
       js ''</div>'',
       [10],
       js ''                </div>'',
       [10],
       js ''                <div class="validation-details-footer">'',
       [10],
       js ''                    <em>Rebuild the spec to update the definition</em>'',
       [10],
       js ''                </div>'',
       [10],
       js ''            '']\<close>

definition missing_markup :: jsstring where
  \<open>missing_markup = concat
      [[10],
       js ''            <div class="validation-details-header">Term Not Found</div>'',
       [10],
       js ''            <div class="validation-details-section">'',
       [10],
       js ''                The term referenced here no longer exists in the external specification.'',
       [10],
       js ''                It may have been renamed, moved, or removed.'',
       [10],
       js ''            </div>'',
       [10],
       js ''            <div class="validation-details-footer">'',
       [10],
       js ''                <em>Check the external specification for updates</em>'',
       [10],
       js ''            </div>'',
       [10],
       js ''        '']\<close>

definition set_textContent :: "jsstring \<Rightarrow> node list" where
  "set_textContent s = (if s = [] then [] else [Text s])"

definition createIndicator :: "browser \<Rightarrow> indicator_type \<Rightarrow> details \<Rightarrow> node" where
  \<open>createIndicator B ty details =
     (let labelText = (if truthy (message details) then the (message details) else label_of_type ty);
          iconSpan = Element (js ''SPAN'') [(js ''class'', js ''indicator-icon'')]
                       (set_textContent (hd (split_on 32 (label_of_type ty))));
          changedDetails =
            (if ty = changed \<and> truthy (oldContent details) \<and> truthy (newContent details)
             then (let diff = findTextDifferences (the (oldContent details)) (the (newContent details));
                       similarityText =
                         (if truthy (similarity details)
                          then js ''<div class="validation-similarity">Similarity: ''
                                 @ the (similarity details) @ js ''</div>''
                          else [])
                   in [Element (js ''DIV'') [(js ''class'', js ''validation-details'')]
                         (parseFragment B
                            (if hasDifferences diff then changed_diff_markup similarityText diff
                             else changed_full_markup similarityText details))])
             else []);
          missingDetails =
            (if ty = missing
             then [Element (js ''DIV'') [(js ''class'', js ''validation-details'')]
                     (parseFragment B missing_markup)]
             else []);
          classes = [indicator_class, class_of_type ty]
                      @ (if changedDetails \<noteq> [] \<or> missingDetails \<noteq> [] then [js ''has-details''] else [])
      in Element (js ''SPAN'') [(js ''class'', join [32] classes), (js ''title'', labelText)]
           ([iconSpan] @ changedDetails @ missingDetails))\<close>

text \<open>
  \<^verbatim>\<open>extractTextFromHtml\<close> and \<^verbatim>\<open>normalizeContent\<close>. The \<^verbatim>\<open>textContent\<close> of the temporary
  element is the concatenation of the text of its children; the alternatives
  \<^verbatim>\<open>innerText\<close> and \<^verbatim>\<open>''\<close> are only read when it is empty.
\<close>

definition extractTextFromHtml :: "browser \<Rightarrow> jsstring \<Rightarrow> jsstring" where
  "extractTextFromHtml B html = concat (map textContent (parseFragment B html))"

definition normalizeContent :: "browser \<Rightarrow> jsstring option \<Rightarrow> jsstring" where
  "normalizeContent B html =
     (if \<not> truthy html then []
      else let text = concat (map textContent (parseFragment B (the html)))
           in trim (punctuationSpacing (collapseWhitespace (removeZeroWidth (toLowerCase B text)))))"

text \<open>
  An entry of the reference index (\<open>term_name\<close> is its \<^verbatim>\<open>term\<close>, \<open>xcontent\<close> its
  \<^verbatim>\<open>content\<close>), and the live data: for a URL, nothing (\<^verbatim>\<open>undefined\<close>), \<^verbatim>\<open>null\<close> or the
  term mapping. The \<^verbatim>\<open>commitHash\<close> is only ever concatenated to a string; it is kept as
  the JavaScript value it is: absent, \<^verbatim>\<open>null\<close> or a string.
\<close>

datatype js_value = JsUndefined | JsNull | JsString jsstring

record source_file =
  sf_file :: jsstring
  sf_type :: jsstring

record xtref =
  externalSpec :: jsstring
  term_name :: jsstring
  ghPageUrl :: "jsstring option"
  xcontent :: "jsstring option"
  commitHash :: js_value
  sourceFiles :: "source_file list"

type_synonym live_data = "jsstring \<rightharpoonup> live_terms option"

text \<open>
  \<^verbatim>\<open>validateXref\<close> and \<^verbatim>\<open>validateTref\<close> have the same body up to the insertion routine
  they call. \<open>validateRef\<close> is that body: it gives the call of \<^verbatim>\<open>createIndicator\<close> that
  is made, if any.
\<close>

definition validateRef ::
  "browser \<Rightarrow> validator_config \<Rightarrow> live_data \<Rightarrow> xtref option \<Rightarrow> (indicator_type \<times> details) option" where
  "validateRef B cfg liveData cachedXtref =
     (case cachedXtref of
        None \<Rightarrow> None
      | Some x \<Rightarrow>
          if \<not> truthy (ghPageUrl x) then None
          else (case liveData (the (ghPageUrl x)) of
                  None \<Rightarrow> None
                | Some None \<Rightarrow> Some (error, no_details)
                | Some (Some liveTerms) \<Rightarrow>
                    (case liveTerms (toLowerCase B (term_name x)) of
                       None \<Rightarrow> Some (missing, no_details)
                     | Some liveTerm \<Rightarrow>
                         let cachedNormalized = normalizeContent B (xcontent x);
                             liveNormalized = normalizeContent B (Some (rawContent liveTerm));
                             sim = calculateSimilarity cachedNormalized liveNormalized
                         in if sim < similarityThreshold cfg
                            then Some (changed,
                                   \<lparr>message = None,
                                    oldContent = Some (if truthy (xcontent x)
                                                       then extractTextFromHtml B (the (xcontent x))
                                                       else js ''No cached content''),
                                    newContent = Some (if content liveTerm \<noteq> [] then content liveTerm
                                                       else js ''No live content''),
                                    similarity = Some (toFixed B (sim * 100) 1 @ js ''%'')\<rparr>)
                            else if showValidIndicators cfg then Some (valid, no_details)
                            else None)))"

text \<open>
  The anchor of an xref is the child \<open>i\<close> of its parent, whose children are
  \<open>siblings\<close>; \<^verbatim>\<open>insertAdjacentElement('afterend', indicator)\<close> puts the indicator right
  after it. For a tref the indicator is appended to the first
  \<^verbatim>\<open>span.term-external\<close> inside the \<^verbatim>\<open>dt\<close>; \<open>update_first P f\<close> applies \<open>f\<close> to the
  element that \<open>querySelector P\<close> finds.
\<close>

fun nextElementSibling :: "node list \<Rightarrow> node option" where
  "nextElementSibling [] = None"
| "nextElementSibling (Text s # rest) = nextElementSibling rest"
| "nextElementSibling (Element tag attrs kids # rest) = Some (Element tag attrs kids)"

definition insertIndicatorAfterElement :: "node list \<Rightarrow> nat \<Rightarrow> node \<Rightarrow> node list" where
  "insertIndicatorAfterElement siblings i indicator =
     (case nextElementSibling (drop (Suc i) siblings) of
        Some n \<Rightarrow>
          if classList_contains n indicator_class then siblings
          else take (Suc i) siblings @ [indicator] @ drop (Suc i) siblings
      | None \<Rightarrow> take (Suc i) siblings @ [indicator] @ drop (Suc i) siblings)"

definition is_term_span :: "node \<Rightarrow> bool" where
  "is_term_span n \<longleftrightarrow>
     (case n of Text s \<Rightarrow> False
      | Element tag attrs kids \<Rightarrow> tag = js ''SPAN'' \<and> classList_contains n (js ''term-external''))"

definition is_indicator :: "node \<Rightarrow> bool" where
  "is_indicator n \<longleftrightarrow> classList_contains n indicator_class"

definition appendChild :: "node \<Rightarrow> node \<Rightarrow> node" where
  "appendChild child n =
     (case n of Text s \<Rightarrow> Text s | Element tag attrs kids \<Rightarrow> Element tag attrs (kids @ [child]))"

fun update_first :: "(node \<Rightarrow> bool) \<Rightarrow> (node \<Rightarrow> node) \<Rightarrow> node list \<Rightarrow> node list" where
  "update_first P f [] = []"
| "update_first P f (Text s # rest) = Text s # update_first P f rest"
| "update_first P f (Element tag attrs kids # rest) =
     (if P (Element tag attrs kids) then f (Element tag attrs kids) # rest
      else (case querySelector P kids of
              Some n \<Rightarrow> Element tag attrs (update_first P f kids) # rest
            | None \<Rightarrow> Element tag attrs kids # update_first P f rest))"

definition insertIndicatorIntoTref :: "node \<Rightarrow> node \<Rightarrow> node" where
  "insertIndicatorIntoTref dtElement indicator =
     (case querySelector is_term_span (childNodes dtElement) of
        None \<Rightarrow> dtElement
      | Some termSpan \<Rightarrow>
          (case querySelector is_indicator (childNodes termSpan) of
             Some existing \<Rightarrow> dtElement
           | None \<Rightarrow>
               Element (tagName dtElement) (attributes dtElement)
                 (update_first is_term_span (appendChild indicator) (childNodes dtElement))))"

definition validateXref ::
  "browser \<Rightarrow> validator_config \<Rightarrow> node list \<Rightarrow> nat \<Rightarrow> live_data \<Rightarrow> xtref option \<Rightarrow> node list" where
  "validateXref B cfg siblings i liveData cachedXtref =
     (case validateRef B cfg liveData cachedXtref of
        None \<Rightarrow> siblings
      | Some (ty, d) \<Rightarrow> insertIndicatorAfterElement siblings i (createIndicator B ty d))"

definition validateTref ::
  "browser \<Rightarrow> validator_config \<Rightarrow> node \<Rightarrow> live_data \<Rightarrow> xtref option \<Rightarrow> node" where
  "validateTref B cfg element liveData cachedXtref =
     (case validateRef B cfg liveData cachedXtref of
        None \<Rightarrow> element
      | Some (ty, d) \<Rightarrow> insertIndicatorIntoTref element (createIndicator B ty d))"

text \<open>
  \<^verbatim>\<open>collectExternalSpecs\<close>, and the \<^verbatim>\<open>liveData\<close> map that \<^verbatim>\<open>validateExternalRefs\<close>
  builds from the result of one fetch per collected URL.
\<close>

definition collectExternalSpecs :: "xtref list \<Rightarrow> (jsstring \<times> jsstring) list" where
  "collectExternalSpecs xtrefs =
     fold (\<lambda>x specs. if truthy (ghPageUrl x) \<and> the (ghPageUrl x) \<notin> fst ` set specs
                       then specs @ [(the (ghPageUrl x), externalSpec x)] else specs) xtrefs []"

definition fetched_liveData :: "(jsstring \<times> jsstring) list \<Rightarrow> (jsstring \<Rightarrow> live_terms option) \<Rightarrow> live_data" where
  "fetched_liveData specs fetched = map_of (map (\<lambda>(url, specName). (url, fetched url)) specs)"

subsection \<open>prepare-tref\<close>

text \<open>
  The two regular expressions of \<^verbatim>\<open>prepare-tref.js\<close> have the form of an opening
  literal, a lazy \<^verbatim>\<open>.*?\<close> and a closing literal. \<open>lazy_until\<close> is the shortest run without
  line terminators up to the closing literal; \<open>regex_match\<close> is \<^verbatim>\<open>String.match\<close> (the
  leftmost match, with the whole match and its group); \<open>removeDefParts\<close> is the global
  \<^verbatim>\<open>replace(defPart, '')\<close>.
\<close>

definition is_line_terminator :: "jschar \<Rightarrow> bool" where
  "is_line_terminator c \<longleftrightarrow> c = 10 \<or> c = 13 \<or> c = 8232 \<or> c = 8233"

definition startsWith :: "'a list \<Rightarrow> 'a list \<Rightarrow> bool" where
  "startsWith s p \<longleftrightarrow> take (length p) s = p"

fun lazy_until :: "jsstring \<Rightarrow> jsstring \<Rightarrow> (jsstring \<times> jsstring) option" where
  "lazy_until close [] = (if close = [] then Some ([], []) else None)"
| "lazy_until close (c # cs) =
     (if startsWith (c # cs) close then Some ([], drop (length close) (c # cs))
      else if is_line_terminator c then None
      else (case lazy_until close cs of
              None \<Rightarrow> None
            | Some (captured, rest) \<Rightarrow> Some (c # captured, rest)))"

definition match_at :: "jsstring \<Rightarrow> jsstring \<Rightarrow> jsstring \<Rightarrow> (jsstring \<times> jsstring) option" where
  "match_at opening close s =
     (if startsWith s opening then lazy_until close (drop (length opening) s) else None)"

fun regex_match :: "jsstring \<Rightarrow> jsstring \<Rightarrow> jsstring \<Rightarrow> (jsstring \<times> jsstring) option" where
  "regex_match opening close [] = None"
| "regex_match opening close (c # cs) =
     (case match_at opening close (c # cs) of
        Some (captured, rest) \<Rightarrow> Some (opening @ captured @ close, captured)
      | None \<Rightarrow> regex_match opening close cs)"

definition tref_match :: "jsstring \<Rightarrow> (jsstring \<times> jsstring) option" where
  "tref_match line = regex_match (js ''[[tref:'') (js '']]'') line"

function removeDefParts :: "jsstring \<Rightarrow> jsstring" where
  "removeDefParts [] = []"
| "removeDefParts (c # cs) =
     (case match_at (js ''[[def: '') (js '']]:'') (c # cs) of
        Some (captured, rest) \<Rightarrow> removeDefParts rest
      | None \<Rightarrow> c # removeDefParts cs)"
  by pat_completeness auto
termination
proof (relation "measure length", goal_cases)
  case 1 show ?case by simp
next
  case (2 c cs) show ?case by simp
next
  case (3 c cs found captured rest)
  have shorter: "lazy_until cl s = Some (cap, r) \<Longrightarrow> length r \<le> length s" for cl s cap r
  proof (induction s arbitrary: cap r)
    case Nil then show ?case by (simp split: if_splits)
  next
    case (Cons d ds)
    then show ?case by (fastforce split: if_splits option.splits)
  qed
  have "match_at (js ''[[def: '') (js '']]:'') (c # cs) = Some (captured, rest)"
    using 3 by simp
  then have "lazy_until (js '']]:'') (drop (length (js ''[[def: '')) (c # cs)) = Some (captured, rest)"
    by (simp add: match_at_def split: if_splits)
  then have "length rest \<le> length (drop (length (js ''[[def: '')) (c # cs))"
    by (rule shorter)
  then show ?case by (simp add: js_def)
qed

text \<open>
  \<^verbatim>\<open>getLocalXTrefContent\<close> on the loaded index, and the loop of \<^verbatim>\<open>prepareTref\<close> over the
  lines of one file. The file is threaded through the loop; the flag tells whether the
  loop was left by the exception that a \<^verbatim>\<open>null\<close> lookup or a missing content raises.
\<close>

definition getLocalXTrefContent ::
  "xtref list \<Rightarrow> jsstring \<Rightarrow> jsstring option \<Rightarrow> (jsstring option \<times> js_value) option" where
  "getLocalXTrefContent xtrefs spec t =
     (case find (\<lambda>x. externalSpec x = spec \<and> Some (term_name x) = t) xtrefs of
        None \<Rightarrow> None
      | Some x \<Rightarrow> Some (xcontent x, commitHash x))"

definition regenerated_notice :: jsstring where
  \<open>regenerated_notice = js ''<!-- This is a copy of the saved remote text. Remove it if you like. It is automatically (re)generated --><span class="transcluded-xref-term">transcluded xref</span>''\<close>

definition string_of :: "js_value \<Rightarrow> jsstring" where
  "string_of v = (case v of JsUndefined \<Rightarrow> js ''undefined'' | JsNull \<Rightarrow> js ''null'' | JsString s \<Rightarrow> s)"

definition nth_opt :: "'a list \<Rightarrow> nat \<Rightarrow> 'a option" where
  "nth_opt xs i = (if i < length xs then Some (xs ! i) else None)"

fun process_lines :: "xtref list \<Rightarrow> jsstring list \<Rightarrow> jsstring \<Rightarrow> jsstring \<times> bool" where
  "process_lines xtrefs [] file = (file, False)"
| "process_lines xtrefs (line # lines) file =
     (if startsWith line (js ''[[tref:'') then
        (case tref_match line of
           None \<Rightarrow> process_lines xtrefs lines file
         | Some (match0, match1) \<Rightarrow>
             let result = map trim (split_on 44 match1)
             in (case getLocalXTrefContent xtrefs (hd result) (nth_opt result 1) of
                   None \<Rightarrow> (file, True)
                 | Some (cont, hash) \<Rightarrow>
                     (case cont of
                        None \<Rightarrow> (file, True)
                      | Some c \<Rightarrow>
                          process_lines xtrefs lines
                            (match0 @ [10, 10] @ regenerated_notice @ [10, 10]
                               @ js ''~ Commit Hash: '' @ string_of hash @ removeDefParts c))))
      else process_lines xtrefs lines file)"

definition processFile :: "xtref list \<Rightarrow> jsstring \<Rightarrow> jsstring" where
  "processFile xtrefs contents = fst (process_lines xtrefs (split_on 10 contents) contents)"

text \<open>
  \<^verbatim>\<open>path.extname\<close> of a file name, and the walk over a directory: files with the
  extension \<^verbatim>\<open>.md\<close> are processed, directories are entered, everything else is left.
\<close>

definition extname :: "jsstring \<Rightarrow> jsstring" where
  "extname name =
     (let ext = rev (takeWhile (\<lambda>c. c \<noteq> 46) (rev name));
          base = rev (drop 1 (dropWhile (\<lambda>c. c \<noteq> 46) (rev name)))
      in if 46 \<notin> set name \<or> base = [] \<or> name = js ''..'' then [] else 46 # ext)"

datatype fs_item = File jsstring jsstring | Directory jsstring "fs_item list" | Other jsstring

fun processDirectory :: "xtref list \<Rightarrow> fs_item list \<Rightarrow> fs_item list" where
  "processDirectory xtrefs [] = []"
| "processDirectory xtrefs (File name contents # items) =
     (if extname name = js ''.md'' then File name (processFile xtrefs contents) else File name contents)
       # processDirectory xtrefs items"
| "processDirectory xtrefs (Directory name sub # items) =
     Directory name (processDirectory xtrefs sub) # processDirectory xtrefs items"
| "processDirectory xtrefs (Other name # items) = Other name # processDirectory xtrefs items"

definition prepareTref :: "xtref list \<Rightarrow> fs_item list \<Rightarrow> fs_item list" where
  "prepareTref xtrefs directory = processDirectory xtrefs directory"

subsection \<open>Notions used in the statements\<close>

text \<open>
  A cache none of whose entries holds \<^verbatim>\<open>null\<close>; a sequence of calls of
  \<^verbatim>\<open>fetchExternalSpec\<close>, each with its clock readings, response and URL; the cache a
  page starts with.
\<close>

definition cache_entries_parsed :: "(jsstring \<rightharpoonup> cache_entry) \<Rightarrow> bool" where
  "cache_entries_parsed c \<longleftrightarrow> (\<forall>u e. c u = Some e \<longrightarrow> data e \<noteq> None)"

fun fetch_sequence ::
  "browser \<Rightarrow> validator_config \<Rightarrow> (int \<times> response \<times> int \<times> jsstring) list \<Rightarrow> fetch_state \<Rightarrow> fetch_state" where
  "fetch_sequence B cfg [] st = st"
| "fetch_sequence B cfg ((now, resp, now', url) # calls) st =
     fetch_sequence B cfg calls (snd (fetchExternalSpec B cfg now resp now' url st))"

definition initial_fetch_state :: fetch_state where
  "initial_fetch_state = \<lparr>fetchCache = Map.empty, requests = []\<rparr>"

text \<open>
  A small instance of the browser for evaluating the model on sample inputs: lower case
  on ASCII letters, a parser for markup-free text, and the text as its serialisation.
\<close>

definition ascii_lower :: "jschar \<Rightarrow> jschar" where
  "ascii_lower c = (if 65 \<le> c \<and> c \<le> 90 then c + 32 else c)"

definition plain_browser :: browser where
  "plain_browser = \<lparr>toLowerCase = map ascii_lower, parseFragment = (\<lambda>s. [Text s]),
     parseDocument = (\<lambda>s. Element (js ''HTML'') [] [Element (js ''BODY'') [] [Text s]]),
     outerHTML = textContent, toFixed = (\<lambda>r n. [])\<rparr>"

text \<open>
  The non-blank lines of a text as \<^verbatim>\<open>findTextDifferences\<close> takes them; the elements of a
  forest in document order; the term entries of a document; the \<^verbatim>\<open>dd\<close> elements of the
  meta-info wrapper class.
\<close>

definition text_lines :: "jsstring \<Rightarrow> jsstring list" where
  "text_lines t = filter (\<lambda>line. trim line \<noteq> []) (split_newlines t)"

fun descendant_elements :: "node list \<Rightarrow> node list" where
  "descendant_elements [] = []"
| "descendant_elements (Text s # rest) = descendant_elements rest"
| "descendant_elements (Element tag attrs kids # rest) =
     Element tag attrs kids # descendant_elements kids @ descendant_elements rest"

definition term_entries :: "browser \<Rightarrow> node \<Rightarrow> (jsstring \<times> live_term) list" where
  "term_entries B doc = List.map_filter (term_entry B) (termElements False [doc])"

definition is_meta_dd :: "node \<Rightarrow> bool" where
  "is_meta_dd n \<longleftrightarrow>
     (case n of Text s \<Rightarrow> False
      | Element tag attrs kids \<Rightarrow>
          tag = js ''DD'' \<and> classList_contains n (js ''meta-info-content-wrapper''))"

text \<open>Sample documents and index entries.\<close>

definition two_terms_doc :: node where
  "two_terms_doc =
     Element (js ''HTML'') [] [Element (js ''HEAD'') [] [], Element (js ''BODY'') []
       [Element (js ''DL'') [(js ''class'', js ''terms-and-definitions-list'')]
         [Element (js ''DT'') [] [Element (js ''SPAN'') [(js ''id'', js ''term:API'')] [Text (js ''API'')]],
          Element (js ''DD'') [] [Text (js ''one'')],
          Element (js ''DT'') [] [Element (js ''SPAN'') [(js ''id'', js ''term:api'')] [Text (js ''api'')]],
          Element (js ''DD'') [] [Text (js ''two'')]]]]"

definition meta_terms_doc :: node where
  "meta_terms_doc =
     Element (js ''HTML'') [] [Element (js ''HEAD'') [] [], Element (js ''BODY'') []
       [Element (js ''DL'') [(js ''class'', js ''terms-and-definitions-list'')]
         [Element (js ''DT'') [] [Element (js ''SPAN'') [(js ''id'', js ''term:meta-term'')] [Text (js ''meta-term'')]],
          Element (js ''DD'') [(js ''class'', js ''meta-info-content-wrapper'')] [Text (js ''Meta info'')],
          Element (js ''DD'') [] [Text (js ''Real definition.'')],
          Element (js ''DT'') [] [Element (js ''SPAN'') [(js ''id'', js ''term:other'')] [Text (js ''other'')]],
          Element (js ''DD'') [] [Text (js ''Other.'')],
          Element (js ''DD'') [(js ''class'', js ''meta-info-content-wrapper'')] [Text (js ''More meta'')]]]]"

definition sample_xtref :: xtref where
  "sample_xtref = \<lparr>externalSpec = js ''TestSpec'', term_name = js ''Test-Term'',
     ghPageUrl = Some (js ''https://example.github.io/test-spec/''),
     xcontent = Some (js ''a''), commitHash = JsString (js ''abc''), sourceFiles = []\<rparr>"

definition sample_terms :: live_terms where
  "sample_terms = [js ''test-term'' \<mapsto> \<lparr>content = js ''b'', rawContent = js ''b'', termId = js ''term:test-term''\<rparr>]"

text \<open>
  What one line does to the file in \<^verbatim>\<open>prepareTref\<close>: nothing (\<open>None\<close>) when it does not
  begin with a complete marker, an exception (\<open>Some None\<close>) when the lookup fails or the
  entry has no content, and otherwise the text written. \<open>writes_before_failure\<close> are the
  texts written until the first exception.
\<close>

definition rewritten_file :: "jsstring \<Rightarrow> js_value \<Rightarrow> jsstring \<Rightarrow> jsstring" where
  "rewritten_file match0 hash c =
     match0 @ [10, 10] @ regenerated_notice @ [10, 10] @ js ''~ Commit Hash: '' @ string_of hash
       @ removeDefParts c"

definition tref_action :: "xtref list \<Rightarrow> jsstring \<Rightarrow> jsstring option option" where
  "tref_action xtrefs line =
     (if startsWith line (js ''[[tref:'') then
        (case tref_match line of
           None \<Rightarrow> None
         | Some (match0, match1) \<Rightarrow>
             (case getLocalXTrefContent xtrefs (hd (map trim (split_on 44 match1)))
                     (nth_opt (map trim (split_on 44 match1)) 1) of
                None \<Rightarrow> Some None
              | Some (cont, hash) \<Rightarrow>
                  (case cont of
                     None \<Rightarrow> Some None
                   | Some c \<Rightarrow> Some (Some (rewritten_file match0 hash c)))))
      else None)"

definition is_tref_line :: "jsstring \<Rightarrow> bool" where
  "is_tref_line line \<longleftrightarrow> startsWith line (js ''[[tref:'') \<and> tref_match line \<noteq> None"

definition writes_before_failure :: "xtref list \<Rightarrow> jsstring list \<Rightarrow> jsstring list" where
  "writes_before_failure xtrefs lines =
     List.map_filter id (takeWhile (\<lambda>a. a \<noteq> None) (List.map_filter (tref_action xtrefs) lines))"

definition sample_index :: "xtref list" where
  "sample_index = [\<lparr>externalSpec = js ''s'', term_name = js ''t'', ghPageUrl = None,
     xcontent = Some (js ''[[def: t, T]]:'' @ [10] @ js ''~ the text''),
     commitHash = JsString (js ''abc''), sourceFiles = []\<rparr>]"

definition two_entry_index :: "xtref list" where
  "two_entry_index =
     [\<lparr>externalSpec = js ''s'', term_name = js ''t'', ghPageUrl = None,
        xcontent = Some (js ''[[def: t, T]]:'' @ [10] @ js ''~ the text''),
        commitHash = JsString (js ''abc''), sourceFiles = []\<rparr>,
      \<lparr>externalSpec = js ''s'', term_name = js ''u'', ghPageUrl = None,
        xcontent = Some ([10] @ js ''~ other [[def: u]]: words''),
        commitHash = JsNull, sourceFiles = []\<rparr>]"

text \<open>
  The browser at two inputs with a character reference: the parser decodes
  \<^verbatim>\<open>&dagger;\<close> to U+2020 and \<^verbatim>\<open>&Dagger;\<close> to U+2021.
\<close>

definition entity_browser :: browser where
  "entity_browser = plain_browser\<lparr>parseFragment :=
     (\<lambda>html. if html = js ''x&dagger;y'' then [Text [120, 8224, 121]]
             else if html = js ''x&Dagger;y'' then [Text [120, 8225, 121]]
             else [Text html])\<rparr>"

section \<open>Properties\<close>

subsection \<open>Normalisation lemmas\<close>

lemma collapse_dropWhile:
  "collapseWhitespace (dropWhile is_whitespace x) =
     (case collapseWhitespace x of [] \<Rightarrow> [] | c # t \<Rightarrow> if is_whitespace c then t else c # t)"
proof (cases x)
  case Nil then show ?thesis by simp
next
  case (Cons c cs)
  have "is_whitespace 32" by (simp add: is_whitespace_def)
  then show ?thesis using Cons by simp
qed

lemma removeZeroWidth_blank_run:
  "removeZeroWidth s = takeWhile is_blank s @ removeZeroWidth (dropWhile is_blank s)"
  by (induction s) (auto simp add: removeZeroWidth_def is_blank_def)

lemma dropWhile_blank_run:
  "dropWhile is_whitespace (takeWhile is_blank s @ x) = dropWhile is_whitespace x"
  by (induction s) (auto simp add: is_blank_def)

lemma collapse_after_blank:
  "collapseWhitespace (dropWhile is_whitespace (removeZeroWidth s)) =
     (case collapseWhitespace (removeZeroWidth (dropWhile is_blank s)) of
        [] \<Rightarrow> [] | c # t \<Rightarrow> if is_whitespace c then t else c # t)"
proof -
  have "dropWhile is_whitespace (removeZeroWidth s)
          = dropWhile is_whitespace (removeZeroWidth (dropWhile is_blank s))"
    using removeZeroWidth_blank_run [of s] dropWhile_blank_run by metis
  then show ?thesis by (simp only: collapse_dropWhile)
qed

lemma collapse_same:
  "same_up_to_whitespace is_blank a b \<Longrightarrow>
   collapseWhitespace (removeZeroWidth a) = collapseWhitespace (removeZeroWidth b)"
proof (induction is_blank a b rule: same_up_to_whitespace.induct)
  case 1 show ?case by simp
next
  case (2 a as) then show ?case by simp
next
  case (3 b bs) then show ?case by simp
next
  case (4 a as b bs)
  show ?case
  proof (cases "is_blank a \<and> is_blank b")
    case True
    then have ih: "collapseWhitespace (removeZeroWidth (dropWhile is_blank as))
                 = collapseWhitespace (removeZeroWidth (dropWhile is_blank bs))"
      using 4 by simp
    have "collapseWhitespace (removeZeroWidth (a # as))
            = 32 # collapseWhitespace (dropWhile is_whitespace (removeZeroWidth as))"
      using True by (simp add: removeZeroWidth_def is_blank_def)
    moreover have "collapseWhitespace (removeZeroWidth (b # bs))
            = 32 # collapseWhitespace (dropWhile is_whitespace (removeZeroWidth bs))"
      using True by (simp add: removeZeroWidth_def is_blank_def)
    ultimately show ?thesis by (simp only: collapse_after_blank ih)
  next
    case False
    then have eq: "a = b" and rest: "same_up_to_whitespace is_blank as bs"
      using "4.prems" by auto
    have ih: "collapseWhitespace (removeZeroWidth as) = collapseWhitespace (removeZeroWidth bs)"
      using 4 False rest by simp
    show ?thesis
    proof (cases "is_zero_width a")
      case True
      then show ?thesis using eq ih by (simp add: removeZeroWidth_def)
    next
      case nz: False
      then have "\<not> is_whitespace a" using False eq by (simp add: is_blank_def)
      then show ?thesis using nz eq ih by (simp add: removeZeroWidth_def)
    qed
  qed
qed

subsection \<open>The matrix computes the recurrence\<close>

lemma lev_spec_zero [simp]: "lev_spec s t i 0 = i"
  by (cases i) auto

lemma lev_spec_up: "lev_spec s t (Suc i) j \<le> lev_spec s t i j + 1"
  by (cases j) auto
lemma lev_spec_left: "lev_spec s t i (Suc j) \<le> lev_spec s t i j + 1"
  by (cases i) auto

lemma lev_spec_down: "lev_spec s t i j \<le> lev_spec s t (Suc i) j + 1"
proof (induction j arbitrary: i)
  case 0 show ?case by (cases i) auto
next
  case (Suc j)
  have a: "lev_spec s t i (Suc j) \<le> lev_spec s t i j + 1" by (rule lev_spec_left)
  have b: "lev_spec s t i j \<le> lev_spec s t (Suc i) j + 1" by (rule Suc.IH)
  show ?case using a b by (auto simp: min_def)
qed

lemma lev_spec_right: "lev_spec s t i j \<le> lev_spec s t i (Suc j) + 1"
proof (induction i arbitrary: j)
  case 0 show ?case by auto
next
  case (Suc i)
  have a: "lev_spec s t (Suc i) j \<le> lev_spec s t i j + 1" by (rule lev_spec_up)
  have b: "lev_spec s t i j \<le> lev_spec s t i (Suc j) + 1" by (rule Suc.IH)
  show ?case using a b by (auto simp: min_def)
qed

lemma lev_spec_le_max: "lev_spec s t i j \<le> max i j"
  by (induction s t i j rule: lev_spec.induct) (auto simp: min_def max_def)

lemma lev_spec_equal_case:
  "min (lev_spec s t i j) (min (lev_spec s t (Suc i) j + 1) (lev_spec s t i (Suc j) + 1)) = lev_spec s t i j"
  using lev_spec_down [of s t i j] lev_spec_right [of s t i j] by (simp add: min_def)

lemma fold_init_rows:
  "fold (\<lambda>i m. array_set m i [i]) [0..<n] [] = map (\<lambda>i. [i]) [0..<n]"
  by (induction n) (simp_all add: array_set_def)

lemma fold_init_row0:
  "fold (\<lambda>j m. array_set m 0 (array_set (m ! 0) j j)) [0..<Suc k] ([0] # rest) = [0..<Suc k] # rest"
proof (induction k)
  case 0 show ?case by (simp add: array_set_def)
next
  case (Suc k)
  have "[0..<Suc (Suc k)] = [0..<Suc k] @ [Suc k]" by simp
  then show ?case using Suc.IH by (simp add: array_set_def del: upt_Suc)
qed

lemma init_matrix_eq:
  "init_matrix str1 str2 = [0..<Suc (length str1)] # map (\<lambda>i. [i]) [1..<Suc (length str2)]"
proof -
  have "map (\<lambda>i. [i]) [0..<Suc (length str2)] = [0] # map (\<lambda>i. [i]) [1..<Suc (length str2)]"
    by (simp add: upt_conv_Cons del: upt_Suc)
  then show ?thesis
    unfolding init_matrix_def Let_def fold_init_rows by (simp only: fold_init_row0)
qed

lemma lev_row_Suc: "lev_row s t i (Suc k) = lev_row s t i k @ [lev_spec s t i (Suc k)]"
  by (simp add: lev_row_def)

lemma inner_loop:
  assumes "0 < i" "i < length M" "M ! (i - 1) = lev_row s t (i - 1) (length s)" "k \<le> length s"
    "M ! i = [i]"
  shows "fold (lev_step s t i) [1..<Suc k] M = M[i := lev_row s t i k]"
  using assms(4)
proof (induction k)
  case 0
  have "M[i := M ! i] = M" by (rule list_update_id)
  then show ?case using assms(5) by (simp add: lev_row_def)
next
  case (Suc k)
  obtain i' where i': "i = Suc i'" using assms(1) by (cases i) auto
  let ?M = "M[i := lev_row s t i k]"
  have k: "k < length s" using Suc.prems by simp
  have f: "fold (lev_step s t i) [1..<Suc k] M = ?M" using Suc by simp
  have r: "?M ! i = lev_row s t i k" using assms(2) by simp
  have p: "?M ! (i - 1) = lev_row s t (i - 1) (length s)" using assms(1,3) by simp
  have c1: "?M ! (i - 1) ! k = lev_spec s t i' k" using p k i' by (simp add: lev_row_def del: upt_Suc)
  have c2: "?M ! (i - 1) ! Suc k = lev_spec s t i' (Suc k)" using p k i' by (simp add: lev_row_def del: upt_Suc)
  have c3: "?M ! i ! k = lev_spec s t i k" using r by (simp add: lev_row_def del: upt_Suc)
  have cell: "lev_step s t i (Suc k) ?M = ?M[i := lev_row s t i k @ [lev_spec s t i (Suc k)]]"
    using c1 c2 c3 r i' assms(2) lev_spec_equal_case [of s t i' k]
    by (auto simp add: lev_step_def array_set_def lev_row_def simp del: upt_Suc)
  have "[1..<Suc (Suc k)] = [1..<Suc k] @ [Suc k]" by simp
  then have "fold (lev_step s t i) [1..<Suc (Suc k)] M = lev_step s t i (Suc k) ?M"
    using f by (simp del: upt_Suc)
  also have "\<dots> = M[i := lev_row s t i (Suc k)]"
    unfolding cell lev_row_Suc by (rule list_update_overwrite)
  finally show ?case .
qed

lemma lev_row0: "lev_row s t 0 k = [0..<Suc k]"
  unfolding lev_row_def by (simp add: map_idI del: upt_Suc)

lemma lev_matrix_0: "init_matrix s t = lev_matrix s t 0"
proof -
  have "map (\<lambda>r. if r \<le> 0 then lev_row s t r (length s) else [r]) [0..<Suc (length t)]
        = lev_row s t 0 (length s) # map (\<lambda>r. [r]) [1..<Suc (length t)]"
    by (simp add: upt_conv_Cons del: upt_Suc)
  then show ?thesis by (simp add: init_matrix_eq lev_matrix_def lev_row0 del: upt_Suc)
qed

lemma outer_loop:
  "k \<le> length t \<Longrightarrow>
   fold (\<lambda>i m. fold (lev_step s t i) [1..<Suc (length s)] m) [1..<Suc k] (init_matrix s t)
     = lev_matrix s t k"
proof (induction k)
  case 0 show ?case by (simp add: lev_matrix_0)
next
  case (Suc k)
  let ?M = "lev_matrix s t k"
  have len: "Suc k < length ?M" using Suc.prems by (simp add: lev_matrix_def)
  have prev: "?M ! (Suc k - 1) = lev_row s t (Suc k - 1) (length s)"
    using Suc.prems by (simp add: lev_matrix_def del: upt_Suc)
  have cur: "?M ! Suc k = [Suc k]"
    using Suc.prems by (simp add: lev_matrix_def del: upt_Suc)
  have inner: "fold (lev_step s t (Suc k)) [1..<Suc (length s)] ?M = ?M[Suc k := lev_row s t (Suc k) (length s)]"
    using inner_loop [of "Suc k" ?M s t "length s"] len prev cur by simp
  have upd: "?M[Suc k := lev_row s t (Suc k) (length s)] = lev_matrix s t (Suc k)"
  proof (rule nth_equalityI)
    show "length (?M[Suc k := lev_row s t (Suc k) (length s)]) = length (lev_matrix s t (Suc k))"
      by (simp add: lev_matrix_def)
  next
    fix r assume "r < length (?M[Suc k := lev_row s t (Suc k) (length s)])"
    then have r: "r < Suc (length t)" by (simp add: lev_matrix_def)
    have nth: "map f [0..<Suc (length t)] ! r = f r" for f :: "nat \<Rightarrow> nat list"
      using r nth_map_upt [of r "Suc (length t)" 0 f] by (simp del: upt_Suc)
    show "?M[Suc k := lev_row s t (Suc k) (length s)] ! r = lev_matrix s t (Suc k) ! r"
    proof (cases "r = Suc k")
      case True
      then show ?thesis using len unfolding lev_matrix_def by (simp add: nth del: upt_Suc)
    next
      case False
      then show ?thesis unfolding lev_matrix_def by (simp add: nth del: upt_Suc)
    qed
  qed
  have "[1..<Suc (Suc k)] = [1..<Suc k] @ [Suc k]" by simp
  then show ?case using Suc inner upd by (simp del: upt_Suc)
qed

lemma levenshteinDistance_spec:
  "levenshteinDistance str1 str2 = lev_spec str1 str2 (length str2) (length str1)"
proof -
  have nth1: "map (\<lambda>r. if r \<le> length str2 then lev_row str1 str2 r (length str1) else [r])
                [0..<Suc (length str2)] ! length str2 = lev_row str1 str2 (length str2) (length str1)"
    using nth_map_upt [of "length str2" "Suc (length str2)" 0] by (simp del: upt_Suc)
  have nth2: "lev_row str1 str2 (length str2) (length str1) ! length str1
                = lev_spec str1 str2 (length str2) (length str1)"
    unfolding lev_row_def using nth_map_upt [of "length str1" "Suc (length str1)" 0]
    by (simp del: upt_Suc)
  show ?thesis
    unfolding levenshteinDistance_def Let_def outer_loop [OF le_refl] lev_matrix_def nth1 nth2 ..
qed

subsection \<open>Similarity\<close>

lemma levenshtein_spec_le: "levenshtein_spec s t \<le> max (length s) (length t)"
  unfolding levenshtein_spec_def using lev_spec_le_max [of s t "length t" "length s"]
  by (simp add: max.commute)

lemma levenshteinDistance_levenshtein_spec:
  "levenshteinDistance str1 str2 = levenshtein_spec str1 str2"
  by (simp add: levenshteinDistance_spec levenshtein_spec_def)

text \<open>
  Claim C2. \<^verbatim>\<open>calculateSimilarity(a, b)\<close> is 1 when the strings are equal (both empty
  included), 0 when exactly one of them is empty, and otherwise
  \<open>(longerLength - editDistance) / longerLength\<close>, where the edit distance is the
  Levenshtein distance of the classic recurrence between the shorter and the longer
  string; the result lies between 0 and 1.
\<close>

theorem C2_calculateSimilarity:
  "calculateSimilarity a b =
     (if a = b then 1
      else if a = [] \<or> b = [] then 0
      else let longer = (if length a > length b then a else b);
               shorter = (if length a > length b then b else a)
           in (of_nat (length longer) - of_nat (levenshtein_spec shorter longer))
                / of_nat (length longer))
   \<and> 0 \<le> calculateSimilarity a b \<and> calculateSimilarity a b \<le> 1"
proof -
  have eq: "calculateSimilarity a b =
     (if a = b then 1
      else if a = [] \<or> b = [] then 0
      else let longer = (if length a > length b then a else b);
               shorter = (if length a > length b then b else a)
           in (of_nat (length longer) - of_nat (levenshtein_spec shorter longer))
                / of_nat (length longer))"
    by (auto simp add: calculateSimilarity_def Let_def levenshteinDistance_levenshtein_spec)
  have bounds: "0 \<le> (of_nat n - of_nat d :: rat) / of_nat n \<and> (of_nat n - of_nat d :: rat) / of_nat n \<le> 1"
    if "d \<le> n" "0 < n" for n d :: nat
    using that by (simp add: divide_le_eq)
  have "0 \<le> calculateSimilarity a b \<and> calculateSimilarity a b \<le> 1"
  proof (cases "a = b \<or> a = [] \<or> b = []")
    case True
    then show ?thesis by (auto simp add: eq)
  next
    case False
    show ?thesis
    proof (cases "length a > length b")
      case True
      have "levenshtein_spec b a \<le> length a"
        using levenshtein_spec_le [of b a] True by simp
      then show ?thesis using False True bounds [of "levenshtein_spec b a" "length a"]
        by (simp add: eq Let_def)
    next
      case gt: False
      have "levenshtein_spec a b \<le> length b"
        using levenshtein_spec_le [of a b] gt by simp
      then show ?thesis using False gt bounds [of "levenshtein_spec a b" "length b"]
        by (simp add: eq Let_def)
    qed
  qed
  with eq show ?thesis by blast
qed

theorem C2_calculateSimilarity_witness:
  "calculateSimilarity ''ab'' ''acb'' = 2 / 3
   \<and> calculateSimilarity ''ab'' ''ab'' = 1
   \<and> calculateSimilarity ''ab'' [] = 0
   \<and> 0 \<le> calculateSimilarity ''ab'' ''acb'' \<and> calculateSimilarity ''ab'' ''acb'' \<le> 1"
  using C2_calculateSimilarity [of "''ab''" "''acb''"]
    C2_calculateSimilarity [of "''ab''" "''ab''"]
    C2_calculateSimilarity [of "''ab''" "[]"]
  by (simp add: levenshtein_spec_def)

subsection \<open>Fetch cache\<close>

lemma fetch_uncached_cases:
  "fetch_uncached B resp now' url st =
     (case resp of
        Response code (Some html) \<Rightarrow>
          if response_ok code
          then (Some (extractTermsFromHtml B html),
                st\<lparr>requests := requests st @ [url],
                   fetchCache := (fetchCache st)(url \<mapsto>
                      \<lparr>timestamp = now', data = Some (extractTermsFromHtml B html)\<rparr>)\<rparr>)
          else (None, st\<lparr>requests := requests st @ [url]\<rparr>)
      | _ \<Rightarrow> (None, st\<lparr>requests := requests st @ [url]\<rparr>))"
  by (simp add: fetch_uncached_def Let_def split: response.splits option.splits)

lemma fetchExternalSpec_preserves:
  "cache_entries_parsed (fetchCache st) \<Longrightarrow>
   cache_entries_parsed (fetchCache (snd (fetchExternalSpec B cfg now resp now' url st)))"
  by (auto simp add: fetchExternalSpec_def fetch_uncached_cases cache_entries_parsed_def
      split: option.splits response.splits if_splits)

lemma fetch_sequence_preserves:
  "cache_entries_parsed (fetchCache st) \<Longrightarrow>
   cache_entries_parsed (fetchCache (fetch_sequence B cfg calls st))"
  by (induction calls arbitrary: st) (auto simp add: fetchExternalSpec_preserves)

text \<open>
  Claim C3. On a cache miss (no entry for the URL, or an entry at least as old as the cache
  timeout), a non-2xx response, a rejected \<^verbatim>\<open>fetch\<close> or a body that cannot be read
  makes \<^verbatim>\<open>fetchExternalSpec\<close> return \<^verbatim>\<open>null\<close> with the cache as it was. The cache
  changes only on a successful fetch, which stores the parsed term mapping under the URL;
  so every entry of a cache grown from the empty one by any sequence of calls holds a
  term mapping, never \<^verbatim>\<open>null\<close>.
\<close>

theorem C3_fetch_failure_leaves_cache:
  "((case fetchCache st url of None \<Rightarrow> True | Some e \<Rightarrow> cacheTimeout cfg \<le> now - timestamp e)
      \<and> (case resp of NetworkError \<Rightarrow> True
           | Response code text \<Rightarrow> \<not> response_ok code \<or> text = None)
     \<longrightarrow> fst (fetchExternalSpec B cfg now resp now' url st) = None
         \<and> fetchCache (snd (fetchExternalSpec B cfg now resp now' url st)) = fetchCache st)
   \<and> (fetchCache (snd (fetchExternalSpec B cfg now resp now' url st)) \<noteq> fetchCache st
     \<longrightarrow> (\<exists>code html. resp = Response code (Some html) \<and> response_ok code
            \<and> fst (fetchExternalSpec B cfg now resp now' url st) = Some (extractTermsFromHtml B html)
            \<and> fetchCache (snd (fetchExternalSpec B cfg now resp now' url st))
                = (fetchCache st)(url \<mapsto> \<lparr>timestamp = now', data = Some (extractTermsFromHtml B html)\<rparr>)))
   \<and> (cache_entries_parsed (fetchCache st)
     \<longrightarrow> cache_entries_parsed (fetchCache (snd (fetchExternalSpec B cfg now resp now' url st))))
   \<and> cache_entries_parsed (fetchCache (fetch_sequence B cfg calls initial_fetch_state))"
proof (intro conjI impI)
  assume "(case fetchCache st url of None \<Rightarrow> True | Some e \<Rightarrow> cacheTimeout cfg \<le> now - timestamp e)
      \<and> (case resp of NetworkError \<Rightarrow> True | Response code text \<Rightarrow> \<not> response_ok code \<or> text = None)"
  then show "fst (fetchExternalSpec B cfg now resp now' url st) = None"
    and "fetchCache (snd (fetchExternalSpec B cfg now resp now' url st)) = fetchCache st"
    by (auto simp add: fetchExternalSpec_def fetch_uncached_cases
        split: option.splits response.splits if_splits)
next
  assume "fetchCache (snd (fetchExternalSpec B cfg now resp now' url st)) \<noteq> fetchCache st"
  then show "\<exists>code html. resp = Response code (Some html) \<and> response_ok code
            \<and> fst (fetchExternalSpec B cfg now resp now' url st) = Some (extractTermsFromHtml B html)
            \<and> fetchCache (snd (fetchExternalSpec B cfg now resp now' url st))
                = (fetchCache st)(url \<mapsto> \<lparr>timestamp = now', data = Some (extractTermsFromHtml B html)\<rparr>)"
    by (auto simp add: fetchExternalSpec_def fetch_uncached_cases
        split: option.splits response.splits if_splits)
next
  assume "cache_entries_parsed (fetchCache st)"
  then show "cache_entries_parsed (fetchCache (snd (fetchExternalSpec B cfg now resp now' url st)))"
    by (rule fetchExternalSpec_preserves)
next
  have "cache_entries_parsed (fetchCache initial_fetch_state)"
    by (simp add: cache_entries_parsed_def initial_fetch_state_def)
  then show "cache_entries_parsed (fetchCache (fetch_sequence B cfg calls initial_fetch_state))"
    by (rule fetch_sequence_preserves)
qed

text \<open>
  Claim C4. When the cache holds an entry for the URL whose age is strictly below the
  cache timeout, \<^verbatim>\<open>fetchExternalSpec\<close> returns the stored term mapping of that entry
  and the whole state is as before: the cache with every entry, and the log of network
  requests (no fetch is issued).
\<close>

theorem C4_cache_hit:
  "fetchCache st url = Some e \<Longrightarrow> now - timestamp e < cacheTimeout cfg \<Longrightarrow>
   fetchExternalSpec B cfg now resp now' url st = (data e, st)"
  by (simp add: fetchExternalSpec_def)

theorem C3_fetch_failure_leaves_cache_witness:
  "fst (fetchExternalSpec plain_browser VALIDATOR_CONFIG 1000 (Response 404 (Some (js ''gone''))) 1001
          (js ''u'') initial_fetch_state) = None
   \<and> fetchCache (snd (fetchExternalSpec plain_browser VALIDATOR_CONFIG 1000
          (Response 404 (Some (js ''gone''))) 1001 (js ''u'') initial_fetch_state))
       = fetchCache initial_fetch_state
   \<and> cache_entries_parsed (fetchCache (snd (fetchExternalSpec plain_browser VALIDATOR_CONFIG 1000
          (Response 200 (Some (js ''page''))) 1001 (js ''u'') initial_fetch_state)))"
  using C3_fetch_failure_leaves_cache [where st = initial_fetch_state and url = "js ''u''"
          and cfg = VALIDATOR_CONFIG and now = 1000 and resp = "Response 404 (Some (js ''gone''))"
          and B = plain_browser and now' = 1001 and calls = "[]"]
        C3_fetch_failure_leaves_cache [where st = initial_fetch_state and url = "js ''u''"
          and cfg = VALIDATOR_CONFIG and now = 1000 and resp = "Response 200 (Some (js ''page''))"
          and B = plain_browser and now' = 1001 and calls = "[]"]
  by (simp add: initial_fetch_state_def response_ok_def cache_entries_parsed_def)

theorem C4_cache_hit_witness:
  "fetchExternalSpec plain_browser VALIDATOR_CONFIG 200000 NetworkError 200001 (js ''u'')
     \<lparr>fetchCache = [js ''u'' \<mapsto> \<lparr>timestamp = 1000, data = Some Map.empty\<rparr>], requests = []\<rparr>
   = (Some Map.empty,
      \<lparr>fetchCache = [js ''u'' \<mapsto> \<lparr>timestamp = 1000, data = Some Map.empty\<rparr>], requests = []\<rparr>)"
  using C4_cache_hit [where st = "\<lparr>fetchCache = [js ''u'' \<mapsto> \<lparr>timestamp = 1000, data = Some Map.empty\<rparr>], requests = []\<rparr>"
      and url = "js ''u''" and e = "\<lparr>timestamp = 1000, data = Some Map.empty\<rparr>" and now = 200000
      and cfg = VALIDATOR_CONFIG and B = plain_browser and resp = NetworkError and now' = 200001]
  by (simp add: VALIDATOR_CONFIG_def)

subsection \<open>Diff extractor\<close>

lemma trim_Nil [simp]: "trim [] = []"
  by (simp add: trim_def)

lemma split_on_unfold:
  "split_on sep s = takeWhile (\<lambda>c. c \<noteq> sep) s #
     (case dropWhile (\<lambda>c. c \<noteq> sep) s of [] \<Rightarrow> [] | nl # rest \<Rightarrow> split_on sep rest)"
  by (induction s) (auto split: list.splits)

lemma split_on_skip_separators:
  "filter (\<lambda>line. trim line \<noteq> []) (split_on 10 (dropWhile (\<lambda>c. c = 10) r))
     = filter (\<lambda>line. trim line \<noteq> []) (split_on 10 r)"
  by (induction r) auto

lemma text_lines_split_on:
  "filter (\<lambda>line. trim line \<noteq> []) (split_newlines s)
     = filter (\<lambda>line. trim line \<noteq> []) (split_on 10 s)"
proof (induction s rule: split_newlines.induct)
  case (1 s)
  let ?nb = "\<lambda>line. trim line \<noteq> []"
  let ?hd = "takeWhile (\<lambda>c. c \<noteq> 10) s"
  show ?case
  proof (cases "dropWhile (\<lambda>c. c \<noteq> 10) s")
    case Nil
    have "split_newlines s = [?hd]"
      by (subst split_newlines.simps) (simp only: Nil list.case)
    moreover have "split_on 10 s = [?hd]"
      by (subst split_on_unfold) (simp only: Nil list.case)
    ultimately show ?thesis by (simp only:)
  next
    case (Cons nl rest)
    have ih: "filter ?nb (split_newlines (dropWhile (\<lambda>c. c = 10) rest))
                = filter ?nb (split_on 10 (dropWhile (\<lambda>c. c = 10) rest))"
      using "1.IH" [OF Cons] .
    have l: "split_newlines s = ?hd # split_newlines (dropWhile (\<lambda>c. c = 10) rest)"
      by (subst split_newlines.simps) (simp only: Cons list.case)
    have r: "split_on 10 s = ?hd # split_on 10 rest"
      by (subst split_on_unfold) (simp only: Cons list.case)
    show ?thesis
      unfolding l r filter.simps ih split_on_skip_separators ..
  qed
qed

lemma split_on_no_separator: "l \<in> set (split_on sep s) \<Longrightarrow> sep \<notin> set l"
  by (induction s arbitrary: l) (auto split: if_splits list.splits)

lemma text_lines_properties:
  "text_lines t = filter (\<lambda>line. trim line \<noteq> []) (split_on 10 t)"
  "l \<in> set (text_lines t) \<Longrightarrow> 10 \<notin> set l \<and> trim l \<noteq> []"
  by (auto simp add: text_lines_def text_lines_split_on simp del: split_newlines.simps
      dest: split_on_no_separator)

text \<open>
  Claim C6. \<^verbatim>\<open>findTextDifferences\<close> splits both texts on runs of newlines and keeps the
  lines that are not blank. \<open>oldUnique\<close> is the lines of the cached text that do not
  occur among the lines of the live text, joined by newlines, or the literal
  \<^verbatim>\<open>(no removed content)\<close> when there is none; \<open>newUnique\<close> is the same the other way
  round, with the placeholder \<^verbatim>\<open>(no added content)\<close>; \<open>hasDifferences\<close> holds exactly
  when one of the two line lists is not empty, that is, when the two texts do not have
  the same set of lines.
\<close>

theorem C6_findTextDifferences:
  "findTextDifferences t1 t2 =
     (let removed = filter (\<lambda>line. line \<notin> set (text_lines t2)) (text_lines t1);
          added = filter (\<lambda>line. line \<notin> set (text_lines t1)) (text_lines t2)
      in \<lparr>oldUnique = (if removed = [] then js ''(no removed content)'' else join [10] removed),
          newUnique = (if added = [] then js ''(no added content)'' else join [10] added),
          hasDifferences = (removed \<noteq> [] \<or> added \<noteq> [])\<rparr>)
   \<and> text_lines t1 = filter (\<lambda>line. trim line \<noteq> []) (split_on 10 t1)
   \<and> text_lines t2 = filter (\<lambda>line. trim line \<noteq> []) (split_on 10 t2)
   \<and> (hasDifferences (findTextDifferences t1 t2) \<longleftrightarrow> set (text_lines t1) \<noteq> set (text_lines t2))"
proof -
  have a: "findTextDifferences t1 t2 =
     (let removed = filter (\<lambda>line. line \<notin> set (text_lines t2)) (text_lines t1);
          added = filter (\<lambda>line. line \<notin> set (text_lines t1)) (text_lines t2)
      in \<lparr>oldUnique = (if removed = [] then js ''(no removed content)'' else join [10] removed),
          newUnique = (if added = [] then js ''(no added content)'' else join [10] added),
          hasDifferences = (removed \<noteq> [] \<or> added \<noteq> [])\<rparr>)"
    by (simp add: findTextDifferences_def text_lines_def Let_def del: split_newlines.simps)
  have b: "hasDifferences (findTextDifferences t1 t2) \<longleftrightarrow> set (text_lines t1) \<noteq> set (text_lines t2)"
    unfolding a Let_def by (auto simp add: filter_empty_conv)
  show ?thesis using a b text_lines_properties(1) by blast
qed

theorem C6_findTextDifferences_witness:
  "findTextDifferences (js ''a'' @ [10] @ js ''b'') (js ''b'' @ [10, 10] @ js ''c'')
     = \<lparr>oldUnique = js ''a'', newUnique = js ''c'', hasDifferences = True\<rparr>
   \<and> findTextDifferences (js ''a'' @ [10, 10] @ js ''b'' @ [10]) (js ''b'' @ [10, 32, 10] @ js ''a'')
     = \<lparr>oldUnique = js ''(no removed content)'', newUnique = js ''(no added content)'',
         hasDifferences = False\<rparr>"
  using C6_findTextDifferences [where ?t1.0 = "js ''a'' @ [10] @ js ''b''" and ?t2.0 = "js ''b'' @ [10, 10] @ js ''c''"]
    C6_findTextDifferences [where ?t1.0 = "js ''a'' @ [10, 10] @ js ''b'' @ [10]"
      and ?t2.0 = "js ''b'' @ [10, 32, 10] @ js ''a''"]
  by (simp add: js_def trim_def is_whitespace_def Let_def del: split_newlines.simps)

subsection \<open>Term extraction\<close>

lemma fold_terms_map_of:
  "fold (\<lambda>dt terms. case f dt of None \<Rightarrow> terms | Some (k, e) \<Rightarrow> terms(k \<mapsto> e)) xs m
     = m ++ map_of (rev (List.map_filter f xs))"
proof (induction xs arbitrary: m)
  case Nil
  show ?case by (simp add: List.map_filter_simps)
next
  case (Cons x xs)
  show ?case
  proof (cases "f x")
    case None
    then show ?thesis using Cons by (simp add: List.map_filter_simps)
  next
    case (Some kv)
    obtain k e where kv: "kv = (k, e)" by (cases kv)
    let ?g = "\<lambda>dt terms. case f dt of None \<Rightarrow> terms | Some (k, e) \<Rightarrow> terms(k \<mapsto> e)"
    have gx: "?g x m = m(k \<mapsto> e)" using Some kv by simp
    have "fold ?g (x # xs) m = fold ?g xs (?g x m)" by simp
    also have "\<dots> = fold ?g xs (m(k \<mapsto> e))" by (simp only: gx)
    also have "\<dots> = m(k \<mapsto> e) ++ map_of (rev (List.map_filter f xs))" by (rule Cons)
    finally have step: "fold ?g (x # xs) m = m(k \<mapsto> e) ++ map_of (rev (List.map_filter f xs))" .
    have "m(k \<mapsto> e) ++ map_of (rev (List.map_filter f xs))
            = m ++ map_of (rev (List.map_filter f xs) @ [(k, e)])"
      by (rule ext) (simp add: map_add_def split: option.splits)
    moreover have "List.map_filter f (x # xs) = (k, e) # List.map_filter f xs"
      using Some kv by (simp add: List.map_filter_simps)
    ultimately show ?thesis using step by simp
  qed
qed

lemma extractTermsFromHtml_map_of:
  "extractTermsFromHtml B html = map_of (rev (term_entries B (parseDocument B html)))"
  unfolding extractTermsFromHtml_def term_entries_def fold_terms_map_of by simp

lemma extractTermsFromHtml_dom:
  "dom (extractTermsFromHtml B html) = fst ` set (term_entries B (parseDocument B html))"
  by (simp add: extractTermsFromHtml_map_of dom_map_of_conv_image_fst)

lemma termElements_no_dt:
  "\<forall>n \<in> set (descendant_elements nodes). tagName n \<noteq> js ''DT'' \<Longrightarrow> termElements inList nodes = []"
  by (induction inList nodes rule: termElements.induct) auto

lemma ddElements_skip_meta:
  "ddElements (filter (\<lambda>n. \<not> is_meta_dd n) siblings) = ddElements siblings"
  by (induction siblings rule: ddElements.induct) (auto simp add: is_meta_dd_def)

lemma last_split_on:
  "last (split_on sep s) = rev (takeWhile (\<lambda>c. c \<noteq> sep) (rev s))"
proof (induction "length s" arbitrary: s rule: less_induct)
  case less
  show ?case
  proof (cases "dropWhile (\<lambda>c. c \<noteq> sep) s")
    case Nil
    then have sp: "split_on sep s = [takeWhile (\<lambda>c. c \<noteq> sep) s]"
      by (subst split_on_unfold) (simp only: list.case)
    have all: "\<forall>c \<in> set s. c \<noteq> sep" using Nil by simp
    have t1: "takeWhile (\<lambda>c. c \<noteq> sep) s = s"
      using all by (simp add: takeWhile_eq_all_conv)
    have t2: "takeWhile (\<lambda>c. c \<noteq> sep) (rev s) = rev s"
      using all by (simp add: takeWhile_eq_all_conv)
    show ?thesis unfolding sp t1 t2 by simp
  next
    case (Cons d rest)
    define tw where "tw = takeWhile (\<lambda>c. c \<noteq> sep) s"
    from Cons have "s = takeWhile (\<lambda>c. c \<noteq> sep) s @ d # rest \<and> \<not> d \<noteq> sep"
      by (rule dropWhile_eq_Cons_conv [THEN iffD1])
    then have "s = tw @ d # rest" and "d = sep" unfolding tw_def by blast+
    then have s: "s = tw @ sep # rest" by (simp only:)
    have "length s = length tw + Suc (length rest)"
      by (subst s) simp
    then have "length rest < length s" by simp
    then have ih: "last (split_on sep rest) = rev (takeWhile (\<lambda>c. c \<noteq> sep) (rev rest))"
      by (rule less)
    have ne: "split_on sep rest \<noteq> []" by (cases rest) (auto split: list.splits)
    have l: "split_on sep s = tw # split_on sep rest"
      unfolding tw_def by (subst split_on_unfold) (simp only: Cons list.case)
    have "rev s = rev rest @ sep # rev tw"
      by (subst s) simp
    then have "takeWhile (\<lambda>c. c \<noteq> sep) (rev s) = takeWhile (\<lambda>c. c \<noteq> sep) (rev rest)"
      by (auto simp add: takeWhile_append takeWhile_eq_all_conv [THEN iffD2, symmetric])
    then show ?thesis using ne ih by (simp add: l)
  qed
qed

lemma term_entry_key:
  "term_entry B dt = Some (k, e) \<Longrightarrow>
   k = toLowerCase B (rev (takeWhile (\<lambda>c. c \<noteq> 58) (rev (termId e))))"
  by (cases dt) (auto simp add: term_entry_def Let_def last_split_on split: option.splits)

lemma term_entry_skip_meta:
  "term_entry B (dt, filter (\<lambda>n. \<not> is_meta_dd n) siblings) = term_entry B (dt, siblings)"
  by (simp add: term_entry_def Let_def ddElements_skip_meta split: option.splits)

lemma two_terms_entries:
  "term_entries (plain_browser\<lparr>parseDocument := \<lambda>html. two_terms_doc\<rparr>) two_terms_doc =
     [(js ''api'', \<lparr>content = js ''one'', rawContent = js ''one'', termId = js ''term:API''\<rparr>),
      (js ''api'', \<lparr>content = js ''two'', rawContent = js ''two'', termId = js ''term:api''\<rparr>)]"
  by (simp add: term_entries_def two_terms_doc_def term_entry_def is_terms_list_def
      classList_contains_def classList_def getAttribute_def has_term_id_def node_id_def
      is_ascii_whitespace_def plain_browser_def ascii_lower_def trim_def is_whitespace_def
      List.map_filter_simps Let_def js_def)

text \<open>
  Claim C5, as amended. A document without \<^verbatim>\<open>dt\<close> elements yields the empty map. The
  map holds, for every term entry (a \<^verbatim>\<open>dt\<close> of a terms-and-definitions list with a
  descendant whose id starts with \<^verbatim>\<open>term:\<close>), the entry under the lowercased part of
  the id after its last colon, a later entry replacing an earlier one with the same key:
  its keys are the keys of the term entries, and its size is the number of term entries
  when their keys are pairwise distinct. Deleting the sibling \<^verbatim>\<open>dd\<close> elements of the
  meta-info wrapper class, wherever they stand among the siblings, leaves the entry of a
  term as it is.
\<close>

theorem C5_extractTermsFromHtml:
  "((\<forall>n \<in> set (descendant_elements [parseDocument B html]). tagName n \<noteq> js ''DT'')
      \<longrightarrow> extractTermsFromHtml B html = Map.empty)
   \<and> extractTermsFromHtml B html = map_of (rev (term_entries B (parseDocument B html)))
   \<and> dom (extractTermsFromHtml B html) = fst ` set (term_entries B (parseDocument B html))
   \<and> (distinct (map fst (term_entries B (parseDocument B html)))
      \<longrightarrow> card (dom (extractTermsFromHtml B html)) = length (term_entries B (parseDocument B html)))
   \<and> (\<forall>(k, e) \<in> set (term_entries B (parseDocument B html)).
         k = toLowerCase B (rev (takeWhile (\<lambda>c. c \<noteq> 58) (rev (termId e)))))
   \<and> term_entry B (dt, filter (\<lambda>n. \<not> is_meta_dd n) siblings) = term_entry B (dt, siblings)"
proof (intro conjI impI)
  assume "\<forall>n \<in> set (descendant_elements [parseDocument B html]). tagName n \<noteq> js ''DT''"
  then have "termElements False [parseDocument B html] = []"
    by (rule termElements_no_dt)
  then show "extractTermsFromHtml B html = Map.empty"
    by (simp add: extractTermsFromHtml_def)
next
  show "extractTermsFromHtml B html = map_of (rev (term_entries B (parseDocument B html)))"
    by (rule extractTermsFromHtml_map_of)
next
  show "dom (extractTermsFromHtml B html) = fst ` set (term_entries B (parseDocument B html))"
    by (rule extractTermsFromHtml_dom)
next
  assume "distinct (map fst (term_entries B (parseDocument B html)))"
  then have "card (set (map fst (term_entries B (parseDocument B html))))
               = length (map fst (term_entries B (parseDocument B html)))"
    by (rule distinct_card)
  then show "card (dom (extractTermsFromHtml B html)) = length (term_entries B (parseDocument B html))"
    by (simp add: extractTermsFromHtml_dom)
next
  show "\<forall>(k, e) \<in> set (term_entries B (parseDocument B html)).
         k = toLowerCase B (rev (takeWhile (\<lambda>c. c \<noteq> 58) (rev (termId e))))"
    by (auto simp add: term_entries_def List.map_filter_def dest: term_entry_key)
next
  show "term_entry B (dt, filter (\<lambda>n. \<not> is_meta_dd n) siblings) = term_entry B (dt, siblings)"
    by (rule term_entry_skip_meta)
qed

lemma meta_terms_entries:
  "term_entries (plain_browser\<lparr>parseDocument := \<lambda>html. meta_terms_doc\<rparr>) meta_terms_doc =
     [(js ''meta-term'', \<lparr>content = js ''Real definition.'', rawContent = js ''Real definition.'',
                          termId = js ''term:meta-term''\<rparr>),
      (js ''other'', \<lparr>content = js ''Other.'', rawContent = js ''Other.'', termId = js ''term:other''\<rparr>)]"
  by (simp add: term_entries_def meta_terms_doc_def term_entry_def is_terms_list_def
      classList_contains_def classList_def getAttribute_def has_term_id_def node_id_def
      is_ascii_whitespace_def plain_browser_def ascii_lower_def trim_def is_whitespace_def
      List.map_filter_simps Let_def js_def)

theorem C5_extractTermsFromHtml_witness:
  "extractTermsFromHtml plain_browser (js ''no terms here'') = Map.empty
   \<and> card (dom (extractTermsFromHtml (plain_browser\<lparr>parseDocument := \<lambda>html. meta_terms_doc\<rparr>) [])) = 2
   \<and> dom (extractTermsFromHtml (plain_browser\<lparr>parseDocument := \<lambda>html. meta_terms_doc\<rparr>) [])
       = {js ''meta-term'', js ''other''}"
proof -
  let ?B = "plain_browser\<lparr>parseDocument := \<lambda>html. meta_terms_doc\<rparr>"
  have nodt: "\<forall>n \<in> set (descendant_elements [parseDocument plain_browser (js ''no terms here'')]).
                tagName n \<noteq> js ''DT''"
    by (simp add: plain_browser_def js_def)
  have doc: "parseDocument ?B [] = meta_terms_doc" by simp
  have dist: "distinct (map fst (term_entries ?B (parseDocument ?B [])))"
    unfolding doc meta_terms_entries by (simp add: js_def)
  have a: "extractTermsFromHtml plain_browser (js ''no terms here'') = Map.empty"
    using C5_extractTermsFromHtml [where B = plain_browser and html = "js ''no terms here''"] nodt
    by blast
  have b: "card (dom (extractTermsFromHtml ?B [])) = length (term_entries ?B (parseDocument ?B []))"
    and c: "dom (extractTermsFromHtml ?B []) = fst ` set (term_entries ?B (parseDocument ?B []))"
    using C5_extractTermsFromHtml [where B = ?B and html = "[]"] dist by blast+
  show ?thesis
    using a b c unfolding doc meta_terms_entries by simp
qed

theorem C5_extractTermsFromHtml_counterexample:
  "length (term_entries (plain_browser\<lparr>parseDocument := \<lambda>html. two_terms_doc\<rparr>) two_terms_doc) = 2
   \<and> card (dom (extractTermsFromHtml (plain_browser\<lparr>parseDocument := \<lambda>html. two_terms_doc\<rparr>) [])) = 1"
  by (simp add: extractTermsFromHtml_dom two_terms_entries)

subsection \<open>Classification of a reference\<close>

lemma collectExternalSpecs_fold:
  "fst ` set (fold (\<lambda>x specs. if truthy (ghPageUrl x) \<and> the (ghPageUrl x) \<notin> fst ` set specs
                       then specs @ [(the (ghPageUrl x), externalSpec x)] else specs) xs acc)
     = fst ` set acc \<union> {the (ghPageUrl x) | x. x \<in> set xs \<and> truthy (ghPageUrl x)}"
proof (induction xs arbitrary: acc)
  case Nil
  show ?case by simp
next
  case (Cons x xs)
  show ?case unfolding fold_Cons comp_apply Cons.IH by auto
qed

lemma collectExternalSpecs_urls:
  "fst ` set (collectExternalSpecs xtrefs) = {the (ghPageUrl x) | x. x \<in> set xtrefs \<and> truthy (ghPageUrl x)}"
  unfolding collectExternalSpecs_def collectExternalSpecs_fold by simp

lemma fetched_liveData_entry:
  "url \<in> fst ` set specs \<Longrightarrow> fetched_liveData specs fetched url = Some (fetched url)"
  unfolding fetched_liveData_def by (induction specs) auto

lemma liveData_of_index:
  assumes "x \<in> set xtrefs" "ghPageUrl x = Some url" "url \<noteq> []"
  shows "fetched_liveData (collectExternalSpecs xtrefs) fetched url = Some (fetched url)"
proof -
  have "truthy (ghPageUrl x)" using assms by (simp add: truthy_def)
  then have "url \<in> fst ` set (collectExternalSpecs xtrefs)"
    unfolding collectExternalSpecs_urls using assms by force
  then show ?thesis by (rule fetched_liveData_entry)
qed

lemma validateRef_cases:
  assumes "ghPageUrl x = Some url" "url \<noteq> []" "liveData url = Some live"
  shows "validateRef B cfg liveData (Some x) =
     (case live of
        None \<Rightarrow> Some (error, no_details)
      | Some liveTerms \<Rightarrow>
          (case liveTerms (toLowerCase B (term_name x)) of
             None \<Rightarrow> Some (missing, no_details)
           | Some liveTerm \<Rightarrow>
               let sim = calculateSimilarity (normalizeContent B (xcontent x))
                           (normalizeContent B (Some (rawContent liveTerm)))
               in if sim < similarityThreshold cfg
                  then Some (changed,
                         \<lparr>message = None,
                          oldContent = Some (if truthy (xcontent x)
                                             then extractTextFromHtml B (the (xcontent x))
                                             else js ''No cached content''),
                          newContent = Some (if content liveTerm \<noteq> [] then content liveTerm
                                             else js ''No live content''),
                          similarity = Some (toFixed B (sim * 100) 1 @ js ''%'')\<rparr>)
                  else if showValidIndicators cfg then Some (valid, no_details)
                  else None))"
  using assms by (simp add: validateRef_def truthy_def Let_def split: option.splits)

text \<open>
  Claim C1. For a reference whose cached entry is an entry of the reference index with a
  non-empty \<^verbatim>\<open>ghPageUrl\<close>, and the live data the orchestrator builds (one fetch result
  per URL of the index), the shared body of \<^verbatim>\<open>validateXref\<close> and \<^verbatim>\<open>validateTref\<close>
  requests an \<^verbatim>\<open>error\<close> indicator when the fetch result for the URL is \<^verbatim>\<open>null\<close>; else
  a \<^verbatim>\<open>missing\<close> indicator when the live mapping has no entry under the lowercased
  term; else, when the similarity of the normalised cached content and the normalised
  live raw content is strictly below the threshold, a \<^verbatim>\<open>changed\<close> indicator with the
  plain text of the cached content, the live plain text and the similarity as a
  percentage; else a \<^verbatim>\<open>valid\<close> indicator when \<^verbatim>\<open>showValidIndicators\<close> is set and
  nothing otherwise. The two functions differ only in the insertion routine. By default
  \<^verbatim>\<open>showValidIndicators\<close> is off and the threshold is 0.95.
\<close>

theorem C1_classification:
  assumes "x \<in> set xtrefs" "ghPageUrl x = Some url" "url \<noteq> []"
  shows "validateRef B cfg (fetched_liveData (collectExternalSpecs xtrefs) fetched) (Some x) =
     (case fetched url of
        None \<Rightarrow> Some (error, no_details)
      | Some liveTerms \<Rightarrow>
          (case liveTerms (toLowerCase B (term_name x)) of
             None \<Rightarrow> Some (missing, no_details)
           | Some liveTerm \<Rightarrow>
               let sim = calculateSimilarity (normalizeContent B (xcontent x))
                           (normalizeContent B (Some (rawContent liveTerm)))
               in if sim < similarityThreshold cfg
                  then Some (changed,
                         \<lparr>message = None,
                          oldContent = Some (if truthy (xcontent x)
                                             then extractTextFromHtml B (the (xcontent x))
                                             else js ''No cached content''),
                          newContent = Some (if content liveTerm \<noteq> [] then content liveTerm
                                             else js ''No live content''),
                          similarity = Some (toFixed B (sim * 100) 1 @ js ''%'')\<rparr>)
                  else if showValidIndicators cfg then Some (valid, no_details)
                  else None))
   \<and> validateXref B cfg siblings i (fetched_liveData (collectExternalSpecs xtrefs) fetched) (Some x) =
       (case validateRef B cfg (fetched_liveData (collectExternalSpecs xtrefs) fetched) (Some x) of
          None \<Rightarrow> siblings
        | Some (ty, d) \<Rightarrow> insertIndicatorAfterElement siblings i (createIndicator B ty d))
   \<and> validateTref B cfg element (fetched_liveData (collectExternalSpecs xtrefs) fetched) (Some x) =
       (case validateRef B cfg (fetched_liveData (collectExternalSpecs xtrefs) fetched) (Some x) of
          None \<Rightarrow> element
        | Some (ty, d) \<Rightarrow> insertIndicatorIntoTref element (createIndicator B ty d))
   \<and> showValidIndicators VALIDATOR_CONFIG = False
   \<and> similarityThreshold VALIDATOR_CONFIG = 95 / 100"
proof -
  have live: "fetched_liveData (collectExternalSpecs xtrefs) fetched url = Some (fetched url)"
    using assms by (rule liveData_of_index)
  show ?thesis
    using validateRef_cases [where liveData = "fetched_liveData (collectExternalSpecs xtrefs) fetched"
        and live = "fetched url" and B = B and cfg = cfg, OF assms(2,3) live]
    by (simp add: validateXref_def validateTref_def VALIDATOR_CONFIG_def)
qed

lemma sample_similarity:
  "calculateSimilarity (normalizeContent plain_browser (Some (js ''a'')))
     (normalizeContent plain_browser (Some (js ''b''))) = 0"
  by (simp add: normalizeContent_def truthy_def plain_browser_def ascii_lower_def js_def
      removeZeroWidth_def is_zero_width_def is_whitespace_def is_punctuation_def trim_def
      calculateSimilarity_def levenshteinDistance_levenshtein_spec levenshtein_spec_def)

theorem C1_classification_witness:
  "validateRef plain_browser VALIDATOR_CONFIG
     (fetched_liveData (collectExternalSpecs [sample_xtref]) (\<lambda>url. None)) (Some sample_xtref)
     = Some (error, no_details)
   \<and> validateRef plain_browser VALIDATOR_CONFIG
     (fetched_liveData (collectExternalSpecs [sample_xtref]) (\<lambda>url. Some Map.empty)) (Some sample_xtref)
     = Some (missing, no_details)
   \<and> validateRef plain_browser VALIDATOR_CONFIG
     (fetched_liveData (collectExternalSpecs [sample_xtref]) (\<lambda>url. Some sample_terms)) (Some sample_xtref)
     = Some (changed, \<lparr>message = None, oldContent = Some (js ''a''), newContent = Some (js ''b''),
                       similarity = Some (js ''%'')\<rparr>)"
proof -
  have x: "sample_xtref \<in> set [sample_xtref]" by simp
  have u: "ghPageUrl sample_xtref = Some (js ''https://example.github.io/test-spec/'')"
    by (simp add: sample_xtref_def)
  have n: "js ''https://example.github.io/test-spec/'' \<noteq> []" by (simp add: js_def)
  have key: "toLowerCase plain_browser (term_name sample_xtref) = js ''test-term''"
    by (simp add: sample_xtref_def plain_browser_def ascii_lower_def js_def)
  have c: "xcontent sample_xtref = Some (js ''a'')" by (simp add: sample_xtref_def)
  have t: "sample_terms (js ''test-term'')
             = Some \<lparr>content = js ''b'', rawContent = js ''b'', termId = js ''term:test-term''\<rparr>"
    by (simp add: sample_terms_def)
  have e: "extractTextFromHtml plain_browser (js ''a'') = js ''a''"
    by (simp add: extractTextFromHtml_def plain_browser_def)
  have f: "toFixed plain_browser r k = []" for r k by (simp add: plain_browser_def)
  have b: "js ''b'' \<noteq> []" and tr: "truthy (Some (js ''a''))" by (simp_all add: js_def truthy_def)
  show ?thesis
    using C1_classification [OF x u n, where B = plain_browser and cfg = VALIDATOR_CONFIG
        and fetched = "\<lambda>url. None", THEN conjunct1]
      C1_classification [OF x u n, where B = plain_browser and cfg = VALIDATOR_CONFIG
        and fetched = "\<lambda>url. Some Map.empty", THEN conjunct1]
      C1_classification [OF x u n, where B = plain_browser and cfg = VALIDATOR_CONFIG
        and fetched = "\<lambda>url. Some sample_terms", THEN conjunct1]
    by (simp add: key c t e f b tr sample_similarity VALIDATOR_CONFIG_def)
qed

subsection \<open>Threshold boundary\<close>

lemma normalizeContent_same:
  assumes "h1 \<noteq> []" "h2 \<noteq> []"
    and "same_up_to_whitespace is_blank (toLowerCase B (extractTextFromHtml B h1))
           (toLowerCase B (extractTextFromHtml B h2))"
  shows "normalizeContent B (Some h1) = normalizeContent B (Some h2)"
  using assms collapse_same [OF assms(3)]
  by (simp add: normalizeContent_def truthy_def extractTextFromHtml_def)

text \<open>
  Claim C7, as amended. Two HTML inputs whose text contents, once parsed and lowercased,
  differ only in the extent of white-space runs (the two texts agree except that a run of
  white space in one stands against a run of white space in the other) are normalised to
  the same string, so their similarity is exactly 1, which is not below a threshold of at
  most 1 (0.95 by default), and no reference whose cached content and live raw content
  are such a pair is classified as changed. White space is here what the pattern
  \<^verbatim>\<open>\s\<close> matches, except U+FEFF, which the normaliser deletes as a zero-width
  character before it collapses white space.
\<close>

theorem C7_whitespace_and_case:
  assumes "h1 \<noteq> []" "h2 \<noteq> []"
    and "same_up_to_whitespace is_blank (toLowerCase B (extractTextFromHtml B h1))
           (toLowerCase B (extractTextFromHtml B h2))"
  shows "normalizeContent B (Some h1) = normalizeContent B (Some h2)
   \<and> calculateSimilarity (normalizeContent B (Some h1)) (normalizeContent B (Some h2)) = 1
   \<and> \<not> calculateSimilarity (normalizeContent B (Some h1)) (normalizeContent B (Some h2))
           < similarityThreshold VALIDATOR_CONFIG
   \<and> (similarityThreshold cfg \<le> 1 \<and> xcontent x = Some h1
        \<and> (\<forall>url liveTerms liveTerm. ghPageUrl x = Some url \<and> liveData url = Some (Some liveTerms)
               \<and> liveTerms (toLowerCase B (term_name x)) = Some liveTerm
               \<longrightarrow> rawContent liveTerm = h2)
      \<longrightarrow> (\<forall>d. validateRef B cfg liveData (Some x) \<noteq> Some (changed, d)))"
proof -
  have same: "normalizeContent B (Some h1) = normalizeContent B (Some h2)"
    using assms by (rule normalizeContent_same)
  have one: "calculateSimilarity (normalizeContent B (Some h1)) (normalizeContent B (Some h2)) = 1"
    unfolding same by (simp add: calculateSimilarity_def)
  have default: "\<not> calculateSimilarity (normalizeContent B (Some h1)) (normalizeContent B (Some h2))
           < similarityThreshold VALIDATOR_CONFIG"
    unfolding one by (simp add: VALIDATOR_CONFIG_def)
  have never: "\<forall>d. validateRef B cfg liveData (Some x) \<noteq> Some (changed, d)"
    if thr: "similarityThreshold cfg \<le> 1" and c: "xcontent x = Some h1"
      and live: "\<forall>url liveTerms liveTerm. ghPageUrl x = Some url \<and> liveData url = Some (Some liveTerms)
               \<and> liveTerms (toLowerCase B (term_name x)) = Some liveTerm
               \<longrightarrow> rawContent liveTerm = h2"
  proof (cases "truthy (ghPageUrl x)")
    case False
    then show ?thesis by (simp add: validateRef_def)
  next
    case True
    then obtain url where url: "ghPageUrl x = Some url" "url \<noteq> []"
      by (auto simp add: truthy_def split: option.splits)
    show ?thesis
    proof (cases "liveData url")
      case None
      then show ?thesis using url True by (simp add: validateRef_def)
    next
      case (Some live')
      show ?thesis
      proof (cases live')
        case None
        then show ?thesis using validateRef_cases [where liveData = liveData and live = live' and B = B and cfg = cfg, OF url Some] by simp
      next
        case inner: (Some liveTerms)
        show ?thesis
        proof (cases "liveTerms (toLowerCase B (term_name x))")
          case None
          then show ?thesis using validateRef_cases [where liveData = liveData and live = live' and B = B and cfg = cfg, OF url Some] inner by simp
        next
          case lt: (Some liveTerm)
          have "rawContent liveTerm = h2" using live url Some inner lt by blast
          then have "calculateSimilarity (normalizeContent B (xcontent x))
                       (normalizeContent B (Some (rawContent liveTerm))) = 1"
            using one c by simp
          then show ?thesis
            using validateRef_cases [where liveData = liveData and live = live' and B = B and cfg = cfg, OF url Some] inner lt thr by (simp add: Let_def)
        qed
      qed
    qed
  qed
  show ?thesis using same one default never by blast
qed

lemma short_similarity:
  "calculateSimilarity [a, b] [a, c, b] = 2 / 3" "b \<noteq> c \<Longrightarrow> calculateSimilarity [a, b, d] [a, c, d] = 2 / 3"
  by (simp_all add: calculateSimilarity_def levenshteinDistance_levenshtein_spec levenshtein_spec_def)

lemma feff_normalized:
  "normalizeContent plain_browser (Some [97, 65279, 98]) = js ''ab''"
  "normalizeContent plain_browser (Some [97, 65279, 32, 98]) = js ''a b''"
  by (simp_all add: normalizeContent_def truthy_def plain_browser_def ascii_lower_def js_def
      removeZeroWidth_def is_zero_width_def is_whitespace_def is_punctuation_def trim_def)

lemma dagger_normalized:
  "normalizeContent entity_browser (Some (js ''x&dagger;y'')) = [120, 8224, 121]"
  "normalizeContent entity_browser (Some (js ''x&Dagger;y'')) = [120, 8225, 121]"
  by (simp_all add: normalizeContent_def truthy_def entity_browser_def plain_browser_def
      ascii_lower_def js_def removeZeroWidth_def is_zero_width_def is_whitespace_def
      is_punctuation_def trim_def)

theorem C7_whitespace_and_case_counterexample:
  "same_up_to_whitespace is_whitespace [97, 65279, 98] [97, 65279, 32, 98]
   \<and> normalizeContent plain_browser (Some [97, 65279, 98]) = js ''ab''
   \<and> normalizeContent plain_browser (Some [97, 65279, 32, 98]) = js ''a b''
   \<and> calculateSimilarity (normalizeContent plain_browser (Some [97, 65279, 98]))
         (normalizeContent plain_browser (Some [97, 65279, 32, 98])) = 2 / 3
   \<and> calculateSimilarity (normalizeContent plain_browser (Some [97, 65279, 98]))
         (normalizeContent plain_browser (Some [97, 65279, 32, 98]))
       < similarityThreshold VALIDATOR_CONFIG
   \<and> map_option fst
         (validateRef plain_browser VALIDATOR_CONFIG
            (\<lambda>url. Some (Some (\<lambda>key. Some \<lparr>content = [97, 65279, 32, 98],
                                               rawContent = [97, 65279, 32, 98],
                                               termId = js ''term:test-term''\<rparr>)))
            (Some (sample_xtref\<lparr>xcontent := Some [97, 65279, 98]\<rparr>)))
       = Some changed
   \<and> map ascii_lower (js ''x&dagger;y'') = map ascii_lower (js ''x&Dagger;y'')
   \<and> normalizeContent entity_browser (Some (js ''x&dagger;y'')) = [120, 8224, 121]
   \<and> normalizeContent entity_browser (Some (js ''x&Dagger;y'')) = [120, 8225, 121]
   \<and> calculateSimilarity (normalizeContent entity_browser (Some (js ''x&dagger;y'')))
         (normalizeContent entity_browser (Some (js ''x&Dagger;y''))) = 2 / 3"
proof -
  have rel: "same_up_to_whitespace is_whitespace [97, 65279, 98] [97, 65279, 32, 98]"
    by (simp add: is_whitespace_def)
  have sim: "calculateSimilarity (normalizeContent plain_browser (Some [97, 65279, 98]))
         (normalizeContent plain_browser (Some [97, 65279, 32, 98])) = 2 / 3"
    unfolding feff_normalized by (simp add: js_def short_similarity)
  have below: "calculateSimilarity (normalizeContent plain_browser (Some [97, 65279, 98]))
         (normalizeContent plain_browser (Some [97, 65279, 32, 98]))
       < similarityThreshold VALIDATOR_CONFIG"
    unfolding sim by (simp add: VALIDATOR_CONFIG_def)
  have url: "ghPageUrl (sample_xtref\<lparr>xcontent := Some [97, 65279, 98]\<rparr>)
               = Some (js ''https://example.github.io/test-spec/'')"
    "js ''https://example.github.io/test-spec/'' \<noteq> []"
    by (simp_all add: sample_xtref_def js_def)
  have changed: "map_option fst
         (validateRef plain_browser VALIDATOR_CONFIG
            (\<lambda>url. Some (Some (\<lambda>key. Some \<lparr>content = [97, 65279, 32, 98],
                                               rawContent = [97, 65279, 32, 98],
                                               termId = js ''term:test-term''\<rparr>)))
            (Some (sample_xtref\<lparr>xcontent := Some [97, 65279, 98]\<rparr>)))
       = Some changed"
    using below
    by (subst validateRef_cases [where url = "js ''https://example.github.io/test-spec/''"
          and live = "Some (\<lambda>key. Some \<lparr>content = [97, 65279, 32, 98],
                                 rawContent = [97, 65279, 32, 98], termId = js ''term:test-term''\<rparr>)"])
       (simp_all add: url Let_def)
  have case_eq: "map ascii_lower (js ''x&dagger;y'') = map ascii_lower (js ''x&Dagger;y'')"
    by (simp add: ascii_lower_def js_def)
  have dsim: "calculateSimilarity (normalizeContent entity_browser (Some (js ''x&dagger;y'')))
         (normalizeContent entity_browser (Some (js ''x&Dagger;y''))) = 2 / 3"
    unfolding dagger_normalized by (simp add: short_similarity)
  show ?thesis
    using rel feff_normalized sim below changed case_eq dagger_normalized dsim by blast
qed

theorem C7_whitespace_and_case_witness:
  "normalizeContent plain_browser (Some (js ''Hello ,   World'' @ [10, 9] @ js ''AGAIN ''))
     = normalizeContent plain_browser (Some (js ''hello , world again  ''))
   \<and> calculateSimilarity
        (normalizeContent plain_browser (Some (js ''Hello ,   World'' @ [10, 9] @ js ''AGAIN '')))
        (normalizeContent plain_browser (Some (js ''hello , world again  ''))) = 1
   \<and> (\<forall>d. validateRef plain_browser VALIDATOR_CONFIG
            (\<lambda>url. Some (Some (\<lambda>key. Some \<lparr>content = js ''hello , world again'',
                                                    rawContent = js ''hello , world again  '',
                                                    termId = js ''term:test-term''\<rparr>)))
            (Some (sample_xtref\<lparr>xcontent := Some (js ''Hello ,   World'' @ [10, 9] @ js ''AGAIN '')\<rparr>))
          \<noteq> Some (changed, d))"
proof -
  let ?h1 = "js ''Hello ,   World'' @ [10, 9] @ js ''AGAIN ''"
  let ?h2 = "js ''hello , world again  ''"
  let ?live = "\<lambda>url :: jsstring. Some (Some (\<lambda>key :: jsstring. Some \<lparr>content = js ''hello , world again'',
                   rawContent = ?h2, termId = js ''term:test-term''\<rparr>))"
  let ?x = "sample_xtref\<lparr>xcontent := Some ?h1\<rparr>"
  have rel: "same_up_to_whitespace is_blank
          (toLowerCase plain_browser (extractTextFromHtml plain_browser ?h1))
          (toLowerCase plain_browser (extractTextFromHtml plain_browser ?h2))"
    by (simp add: plain_browser_def extractTextFromHtml_def ascii_lower_def js_def is_blank_def
        is_whitespace_def is_zero_width_def)
  have ne: "?h1 \<noteq> []" "?h2 \<noteq> []"
    by (simp_all add: js_def)
  have thr: "similarityThreshold VALIDATOR_CONFIG \<le> 1" by (simp add: VALIDATOR_CONFIG_def)
  have xc: "xcontent ?x = Some ?h1" by simp
  have live: "\<forall>url liveTerms liveTerm. ghPageUrl ?x = Some url \<and> ?live url = Some (Some liveTerms)
               \<and> liveTerms (toLowerCase plain_browser (term_name ?x)) = Some liveTerm
               \<longrightarrow> rawContent liveTerm = ?h2"
    by auto
  have never: "\<forall>d. validateRef plain_browser VALIDATOR_CONFIG ?live (Some ?x) \<noteq> Some (changed, d)"
    using C7_whitespace_and_case [where B = plain_browser and cfg = VALIDATOR_CONFIG and x = ?x
        and liveData = ?live, OF ne rel] thr xc live
    by blast
  show ?thesis
    using C7_whitespace_and_case [where B = plain_browser, OF ne rel] never by blast
qed

subsection \<open>Indicator insertion\<close>


lemma tokens_last_word:
  "\<forall>c \<in> set w. \<not> is_ascii_whitespace c \<Longrightarrow> tokens w = [w]"
  by (induction w) auto





lemma insertIndicatorAfterElement_cases:
  "insertIndicatorAfterElement siblings i ind = siblings
   \<or> insertIndicatorAfterElement siblings i ind = take (Suc i) siblings @ ind # drop (Suc i) siblings"
  by (simp add: insertIndicatorAfterElement_def split: option.splits)















subsection \<open>Rewriting of transcluded references\<close>

lemma process_lines_step:
  "process_lines xtrefs (l # ls) cur =
     (case tref_action xtrefs l of
        None \<Rightarrow> process_lines xtrefs ls cur
      | Some None \<Rightarrow> (cur, True)
      | Some (Some w) \<Rightarrow> process_lines xtrefs ls w)"
  by (simp add: tref_action_def rewritten_file_def Let_def split: option.splits prod.splits)

lemma process_lines_writes:
  "fst (process_lines xtrefs lines cur) = last (cur # writes_before_failure xtrefs lines)"
proof (induction lines arbitrary: cur)
  case Nil
  show ?case by (simp add: writes_before_failure_def List.map_filter_simps)
next
  case (Cons l ls)
  show ?case
  proof (cases "tref_action xtrefs l")
    case None
    then show ?thesis
      using Cons [of cur]
      by (simp add: process_lines_step writes_before_failure_def List.map_filter_simps
          del: process_lines.simps)
  next
    case (Some a)
    show ?thesis
    proof (cases a)
      case None
      then show ?thesis
        using Some
        by (simp add: process_lines_step writes_before_failure_def List.map_filter_simps
            del: process_lines.simps)
    next
      case w: (Some w)
      then show ?thesis
        using Some Cons [of w]
        by (simp add: process_lines_step writes_before_failure_def List.map_filter_simps
            del: process_lines.simps)
    qed
  qed
qed

lemma process_lines_skip:
  "\<forall>b \<in> set before. tref_action xtrefs b = None \<Longrightarrow>
   process_lines xtrefs (before @ rest) cur = process_lines xtrefs rest cur"
  by (induction before) (simp_all add: process_lines_step del: process_lines.simps)

lemma process_lines_no_failure:
  "\<forall>b \<in> set before. tref_action xtrefs b \<noteq> Some None \<Longrightarrow>
   \<exists>cur'. process_lines xtrefs (before @ rest) cur = process_lines xtrefs rest cur'"
proof (induction before arbitrary: cur)
  case Nil
  show ?case by auto
next
  case (Cons b bs)
  then show ?case
    by (cases "tref_action xtrefs b")
       (auto simp add: process_lines_step simp del: process_lines.simps split: option.splits)
qed

lemma tref_action_not_line: "\<not> is_tref_line l \<Longrightarrow> tref_action xtrefs l = None"
  by (auto simp add: is_tref_line_def tref_action_def split: option.splits)

lemma tref_action_found:
  assumes "startsWith l (js ''[[tref:'')" "tref_match l = Some (match0, match1)"
    and "find (\<lambda>x. externalSpec x = hd (map trim (split_on 44 match1))
                    \<and> Some (term_name x) = nth_opt (map trim (split_on 44 match1)) 1) xtrefs = Some x"
    and "xcontent x = Some c"
  shows "tref_action xtrefs l = Some (Some (rewritten_file match0 (commitHash x) c))"
  using assms by (simp add: tref_action_def getLocalXTrefContent_def)

lemma tref_action_missing:
  assumes "startsWith l (js ''[[tref:'')" "tref_match l = Some (match0, match1)"
    and "getLocalXTrefContent xtrefs (hd (map trim (split_on 44 match1)))
           (nth_opt (map trim (split_on 44 match1)) 1) = None"
  shows "tref_action xtrefs l = Some None"
  using assms by (simp add: tref_action_def)

lemma processDirectory_append:
  "processDirectory xtrefs (items @ items') = processDirectory xtrefs items @ processDirectory xtrefs items'"
  by (induction xtrefs items rule: processDirectory.induct) simp_all

lemma lazy_until_body:
  "\<forall>c \<in> set inner. c \<noteq> 93 \<and> \<not> is_line_terminator c \<Longrightarrow>
   lazy_until (js '']]:'') (inner @ js '']]:'' @ rest) = Some (inner, rest)"
  by (induction inner) (simp_all add: startsWith_def js_def)

lemma removeDefParts_marker:
  assumes "\<forall>c \<in> set inner. c \<noteq> 93 \<and> \<not> is_line_terminator c"
  shows "removeDefParts (js ''[[def: '' @ inner @ js '']]:'' @ rest) = removeDefParts rest"
proof -
  have m: "match_at (js ''[[def: '') (js '']]:'') (js ''[[def: '' @ inner @ js '']]:'' @ rest) = Some (inner, rest)"
    using lazy_until_body [OF assms, of rest] by (simp add: match_at_def startsWith_def)
  obtain c cs where s: "js ''[[def: '' @ inner @ js '']]:'' @ rest = c # cs"
    by (simp add: js_def)
  show ?thesis unfolding s using m [unfolded s] by simp
qed

lemma removeDefParts_plain:
  "91 \<notin> set pre \<Longrightarrow> removeDefParts (pre @ rest) = pre @ removeDefParts rest"
  by (induction pre) (simp_all add: match_at_def startsWith_def js_def)

lemma removeDefParts_segments:
  assumes "\<forall>(pre, inner) \<in> set segs.
             91 \<notin> set pre \<and> (\<forall>ch \<in> set inner. ch \<noteq> 93 \<and> \<not> is_line_terminator ch)"
    and "91 \<notin> set post"
  shows "removeDefParts
           (concat (map (\<lambda>(pre, inner). pre @ js ''[[def: '' @ inner @ js '']]:'') segs) @ post)
         = concat (map fst segs) @ post"
  using assms(1)
proof (induction segs)
  case Nil
  show ?case using removeDefParts_plain [OF assms(2), of "[]"] by simp
next
  case (Cons seg segs)
  obtain pre inner where seg: "seg = (pre, inner)" by (cases seg)
  have pre: "91 \<notin> set pre"
    and inner: "\<forall>ch \<in> set inner. ch \<noteq> 93 \<and> \<not> is_line_terminator ch"
    using Cons.prems seg by auto
  let ?tail = "concat (map (\<lambda>(pre, inner). pre @ js ''[[def: '' @ inner @ js '']]:'') segs) @ post"
  have ih: "removeDefParts ?tail = concat (map fst segs) @ post"
    using Cons by simp
  have "removeDefParts (pre @ js ''[[def: '' @ inner @ js '']]:'' @ ?tail)
          = pre @ removeDefParts (js ''[[def: '' @ inner @ js '']]:'' @ ?tail)"
    using pre by (rule removeDefParts_plain)
  also have "\<dots> = pre @ removeDefParts ?tail"
    using inner by (simp only: removeDefParts_marker)
  finally show ?case using ih seg by simp
qed

lemma writes_without_failure:
  assumes "\<forall>b \<in> set lines. tref_action xtrefs b \<noteq> Some None"
  shows "writes_before_failure xtrefs lines
           = List.map_filter id (List.map_filter (tref_action xtrefs) lines)"
proof -
  have "\<forall>a \<in> set (List.map_filter (tref_action xtrefs) lines). a \<noteq> None"
    using assms by (auto simp add: List.map_filter_def)
  then have "takeWhile (\<lambda>a. a \<noteq> None) (List.map_filter (tref_action xtrefs) lines)
               = List.map_filter (tref_action xtrefs) lines"
    by (rule takeWhile_eq_all_conv [THEN iffD2])
  then show ?thesis unfolding writes_before_failure_def by (rule arg_cong)
qed

lemma processFile_writes:
  "processFile xtrefs contents = last (contents # writes_before_failure xtrefs (split_on 10 contents))"
  by (simp add: processFile_def process_lines_writes)

lemma process_lines_last_marker:
  assumes "\<forall>b \<in> set before. tref_action xtrefs b \<noteq> Some None"
    and "tref_action xtrefs l = Some (Some w)"
    and "\<forall>a \<in> set after. \<not> is_tref_line a"
  shows "fst (process_lines xtrefs (before @ l # after) cur) = w"
proof -
  obtain cur' where "process_lines xtrefs (before @ l # after) cur = process_lines xtrefs (l # after) cur'"
    using process_lines_no_failure [OF assms(1)] by blast
  moreover have "process_lines xtrefs (l # after) cur' = process_lines xtrefs (after @ []) w"
    using assms(2) by (simp add: process_lines_step del: process_lines.simps)
  moreover have "process_lines xtrefs (after @ []) w = process_lines xtrefs [] w"
    using assms(3) by (intro process_lines_skip) (simp add: tref_action_not_line)
  ultimately show ?thesis by simp
qed

lemma process_lines_first_missing:
  assumes "\<forall>b \<in> set before. \<not> is_tref_line b"
    and "tref_action xtrefs l = Some None"
  shows "process_lines xtrefs (before @ l # after) cur = (cur, True)"
proof -
  have "process_lines xtrefs (before @ l # after) cur = process_lines xtrefs (l # after) cur"
    using assms(1) by (intro process_lines_skip) (simp add: tref_action_not_line)
  then show ?thesis using assms(2) by (simp add: process_lines_step del: process_lines.simps)
qed

lemma processDirectory_file:
  "processDirectory xtrefs (items @ File name contents # items') =
     processDirectory xtrefs items
       @ File name (if extname name = js ''.md'' then processFile xtrefs contents else contents)
       # processDirectory xtrefs items'"
  by (simp add: processDirectory_append)

text \<open>
  Claim C9, as amended. In a markdown file in which every line that begins with a complete
  \<^verbatim>\<open>[[tref:...]]\<close> marker has an index entry with content for its exact pair of
  specification and term, each such line overwrites the whole file, in line order: the
  file ends as the text written for the last of them (and as it was when there is none).
  That text is the marker of the line, the regenerated-content notice, the commit-hash
  annotation and the cached content without its \<^verbatim>\<open>[[def: ...]]:\<close> markers: in a content
  made of pieces without an opening bracket and of markers whose body has no closing
  bracket and no line break, every marker is removed and every piece is kept.
\<close>

theorem C9_prepareTref_rewrite:
  "((\<forall>b \<in> set (split_on 10 contents). tref_action xtrefs b \<noteq> Some None)
      \<longrightarrow> processFile xtrefs contents =
            last (contents # List.map_filter id
                    (List.map_filter (tref_action xtrefs) (split_on 10 contents))))
   \<and> (split_on 10 contents = before @ l # after
        \<and> (\<forall>b \<in> set before. tref_action xtrefs b \<noteq> Some None)
        \<and> startsWith l (js ''[[tref:'') \<and> tref_match l = Some (match0, match1)
        \<and> find (\<lambda>x. externalSpec x = hd (map trim (split_on 44 match1))
                       \<and> Some (term_name x) = nth_opt (map trim (split_on 44 match1)) 1) xtrefs = Some x
        \<and> xcontent x = Some c
        \<and> (\<forall>a \<in> set after. \<not> is_tref_line a)
      \<longrightarrow> processFile xtrefs contents =
            match0 @ [10, 10] @ regenerated_notice @ [10, 10] @ js ''~ Commit Hash: ''
              @ string_of (commitHash x) @ removeDefParts c)
   \<and> ((\<forall>(pre, inner) \<in> set segs.
           91 \<notin> set pre \<and> (\<forall>ch \<in> set inner. ch \<noteq> 93 \<and> \<not> is_line_terminator ch))
        \<and> 91 \<notin> set post
      \<longrightarrow> removeDefParts
            (concat (map (\<lambda>(pre, inner). pre @ js ''[[def: '' @ inner @ js '']]:'') segs) @ post)
          = concat (map fst segs) @ post)
   \<and> string_of JsUndefined = js ''undefined'' \<and> string_of JsNull = js ''null''
   \<and> string_of (JsString hash) = hash
   \<and> (extname name = js ''.md''
      \<longrightarrow> prepareTref xtrefs (items @ File name contents # items') =
            prepareTref xtrefs items @ File name (processFile xtrefs contents) # prepareTref xtrefs items')"
proof (intro conjI impI)
  assume "\<forall>b \<in> set (split_on 10 contents). tref_action xtrefs b \<noteq> Some None"
  then show "processFile xtrefs contents =
            last (contents # List.map_filter id
                    (List.map_filter (tref_action xtrefs) (split_on 10 contents)))"
    by (simp only: processFile_writes writes_without_failure)
next
  assume h: "split_on 10 contents = before @ l # after
        \<and> (\<forall>b \<in> set before. tref_action xtrefs b \<noteq> Some None)
        \<and> startsWith l (js ''[[tref:'') \<and> tref_match l = Some (match0, match1)
        \<and> find (\<lambda>x. externalSpec x = hd (map trim (split_on 44 match1))
                       \<and> Some (term_name x) = nth_opt (map trim (split_on 44 match1)) 1) xtrefs = Some x
        \<and> xcontent x = Some c
        \<and> (\<forall>a \<in> set after. \<not> is_tref_line a)"
  then have lines: "split_on 10 contents = before @ l # after"
    and bef: "\<forall>b \<in> set before. tref_action xtrefs b \<noteq> Some None"
    and sw: "startsWith l (js ''[[tref:'')" and tm: "tref_match l = Some (match0, match1)"
    and fnd: "find (\<lambda>x. externalSpec x = hd (map trim (split_on 44 match1))
                       \<and> Some (term_name x) = nth_opt (map trim (split_on 44 match1)) 1) xtrefs = Some x"
    and xc: "xcontent x = Some c"
    and aft: "\<forall>a \<in> set after. \<not> is_tref_line a"
    by blast+
  have act: "tref_action xtrefs l = Some (Some (rewritten_file match0 (commitHash x) c))"
    using sw tm fnd xc by (rule tref_action_found)
  have "fst (process_lines xtrefs (before @ l # after) contents) = rewritten_file match0 (commitHash x) c"
    using bef act aft by (rule process_lines_last_marker)
  then show "processFile xtrefs contents =
            match0 @ [10, 10] @ regenerated_notice @ [10, 10] @ js ''~ Commit Hash: ''
              @ string_of (commitHash x) @ removeDefParts c"
    unfolding processFile_def lines rewritten_file_def .
next
  assume "(\<forall>(pre, inner) \<in> set segs.
           91 \<notin> set pre \<and> (\<forall>ch \<in> set inner. ch \<noteq> 93 \<and> \<not> is_line_terminator ch))
        \<and> 91 \<notin> set post"
  then show "removeDefParts
            (concat (map (\<lambda>(pre, inner). pre @ js ''[[def: '' @ inner @ js '']]:'') segs) @ post)
          = concat (map fst segs) @ post"
    using removeDefParts_segments [of segs post] by blast
next
  show "string_of JsUndefined = js ''undefined''" "string_of JsNull = js ''null''"
    "string_of (JsString hash) = hash"
    by (simp_all add: string_of_def)
next
  assume "extname name = js ''.md''"
  then show "prepareTref xtrefs (items @ File name contents # items') =
            prepareTref xtrefs items @ File name (processFile xtrefs contents) # prepareTref xtrefs items'"
    by (simp add: prepareTref_def processDirectory_file)
qed

text \<open>
  Claim C10, as amended. When the first line of a markdown file that begins with a
  complete \<^verbatim>\<open>[[tref:...]]\<close> marker has no entry in the index for its pair, the lookup
  returns \<^verbatim>\<open>null\<close>, the loop over the lines ends by an exception before any write, and
  the file is left as it was. The other items of the directory are processed all the same.
\<close>

theorem C10_missing_entry:
  "(split_on 10 contents = before @ l # after
        \<and> (\<forall>b \<in> set before. \<not> is_tref_line b)
        \<and> startsWith l (js ''[[tref:'') \<and> tref_match l = Some (match0, match1)
        \<and> getLocalXTrefContent xtrefs (hd (map trim (split_on 44 match1)))
              (nth_opt (map trim (split_on 44 match1)) 1) = None
      \<longrightarrow> process_lines xtrefs (split_on 10 contents) contents = (contents, True)
          \<and> processFile xtrefs contents = contents)
   \<and> prepareTref xtrefs (items @ File name contents # items') =
         prepareTref xtrefs items
           @ File name (if extname name = js ''.md'' then processFile xtrefs contents else contents)
           # prepareTref xtrefs items'"
proof (intro conjI impI)
  assume h: "split_on 10 contents = before @ l # after
        \<and> (\<forall>b \<in> set before. \<not> is_tref_line b)
        \<and> startsWith l (js ''[[tref:'') \<and> tref_match l = Some (match0, match1)
        \<and> getLocalXTrefContent xtrefs (hd (map trim (split_on 44 match1)))
              (nth_opt (map trim (split_on 44 match1)) 1) = None"
  then have lines: "split_on 10 contents = before @ l # after"
    and bef: "\<forall>b \<in> set before. \<not> is_tref_line b"
    and sw: "startsWith l (js ''[[tref:'')" and tm: "tref_match l = Some (match0, match1)"
    and none: "getLocalXTrefContent xtrefs (hd (map trim (split_on 44 match1)))
              (nth_opt (map trim (split_on 44 match1)) 1) = None"
    by blast+
  have act: "tref_action xtrefs l = Some None"
    using sw tm none by (rule tref_action_missing)
  have p: "process_lines xtrefs (before @ l # after) contents = (contents, True)"
    using bef act by (rule process_lines_first_missing)
  show "process_lines xtrefs (split_on 10 contents) contents = (contents, True)"
    unfolding lines by (rule p)
  then show "processFile xtrefs contents = contents"
    by (simp add: processFile_def)
next
  show "prepareTref xtrefs (items @ File name contents # items') =
         prepareTref xtrefs items
           @ File name (if extname name = js ''.md'' then processFile xtrefs contents else contents)
           # prepareTref xtrefs items'"
    by (simp add: prepareTref_def processDirectory_file)
qed

lemmas tref_eval =
  processFile_def startsWith_def tref_match_def match_at_def is_line_terminator_def trim_def
  is_whitespace_def getLocalXTrefContent_def sample_index_def two_entry_index_def nth_opt_def
  string_of_def js_def

lemma sample_file_rewritten:
  "processFile sample_index (js ''[[tref: s, t ]] see'' @ [10] @ js ''old text'')
     = js ''[[tref: s, t ]]'' @ [10, 10] @ regenerated_notice @ [10, 10]
         @ js ''~ Commit Hash: abc'' @ [10] @ js ''~ the text''"
  by (simp add: tref_eval)

lemma two_markers_rewritten:
  "processFile two_entry_index (js ''[[tref:s,t]]'' @ [10] @ js ''[[tref:s,u]]'')
     = js ''[[tref:s,u]]'' @ [10, 10] @ regenerated_notice @ [10, 10]
         @ js ''~ Commit Hash: null'' @ [10] @ js ''~ other  words''"
  by (simp add: tref_eval)

theorem C9_prepareTref_rewrite_counterexample:
  "js ''[[tref:s,t]]'' \<in> set (split_on 10 (js ''[[tref:s,t]]'' @ [10] @ js ''[[tref:s,u]]''))
   \<and> getLocalXTrefContent two_entry_index (js ''s'') (Some (js ''t''))
       = Some (Some (js ''[[def: t, T]]:'' @ [10] @ js ''~ the text''), JsString (js ''abc''))
   \<and> processFile two_entry_index (js ''[[tref:s,t]]'' @ [10] @ js ''[[tref:s,u]]'')
       = js ''[[tref:s,u]]'' @ [10, 10] @ regenerated_notice @ [10, 10]
           @ js ''~ Commit Hash: null'' @ [10] @ js ''~ other  words''
   \<and> js ''[[tref:s,t]]''
       \<notin> set (split_on 10 (processFile two_entry_index (js ''[[tref:s,t]]'' @ [10] @ js ''[[tref:s,u]]'')))
   \<and> js ''~ the text''
       \<notin> set (split_on 10 (processFile two_entry_index (js ''[[tref:s,t]]'' @ [10] @ js ''[[tref:s,u]]'')))"
proof -
  have "js ''[[tref:s,t]]'' \<in> set (split_on 10 (js ''[[tref:s,t]]'' @ [10] @ js ''[[tref:s,u]]''))"
    by (simp add: js_def)
  moreover have "getLocalXTrefContent two_entry_index (js ''s'') (Some (js ''t''))
       = Some (Some (js ''[[def: t, T]]:'' @ [10] @ js ''~ the text''), JsString (js ''abc''))"
    by (simp add: getLocalXTrefContent_def two_entry_index_def js_def)
  moreover have "js ''[[tref:s,t]]''
       \<notin> set (split_on 10 (js ''[[tref:s,u]]'' @ [10, 10] @ regenerated_notice @ [10, 10]
           @ js ''~ Commit Hash: null'' @ [10] @ js ''~ other  words''))"
    by (simp add: regenerated_notice_def js_def)
  moreover have "js ''~ the text''
       \<notin> set (split_on 10 (js ''[[tref:s,u]]'' @ [10, 10] @ regenerated_notice @ [10, 10]
           @ js ''~ Commit Hash: null'' @ [10] @ js ''~ other  words''))"
    by (simp add: regenerated_notice_def js_def)
  ultimately show ?thesis unfolding two_markers_rewritten by blast
qed

theorem C10_missing_entry_counterexample:
  "js ''[[tref:s,x]]'' \<in> set (split_on 10 (js ''[[tref:s,t]]'' @ [10] @ js ''[[tref:s,x]]''))
   \<and> getLocalXTrefContent sample_index (js ''s'') (Some (js ''x'')) = None
   \<and> processFile sample_index (js ''[[tref:s,t]]'' @ [10] @ js ''[[tref:s,x]]'')
       = js ''[[tref:s,t]]'' @ [10, 10] @ regenerated_notice @ [10, 10]
           @ js ''~ Commit Hash: abc'' @ [10] @ js ''~ the text''
   \<and> processFile sample_index (js ''[[tref:s,t]]'' @ [10] @ js ''[[tref:s,x]]'')
       \<noteq> js ''[[tref:s,t]]'' @ [10] @ js ''[[tref:s,x]]''"
  by (simp add: tref_eval)

theorem C9_prepareTref_rewrite_witness:
  "processFile two_entry_index (js ''[[tref:s,t]]'' @ [10] @ js ''[[tref:s,u]]'')
     = js ''[[tref:s,u]]'' @ [10, 10] @ regenerated_notice @ [10, 10]
         @ js ''~ Commit Hash: null'' @ [10] @ js ''~ other  words''
   \<and> processFile two_entry_index (js ''[[tref: s, t ]] see'' @ [10] @ js ''old text'')
     = js ''[[tref: s, t ]]'' @ [10, 10] @ regenerated_notice @ [10, 10]
         @ js ''~ Commit Hash: abc'' @ [10] @ js ''~ the text''
   \<and> removeDefParts (js ''a [[def: t, T]]:'' @ [10] @ js ''b [[def: u]]: end'')
     = js ''a '' @ [10] @ js ''b  end''
   \<and> prepareTref two_entry_index ([] @ File (js ''term.md'') (js ''plain'') # [])
       = prepareTref two_entry_index [] @ File (js ''term.md'') (processFile two_entry_index (js ''plain''))
           # prepareTref two_entry_index []"
proof -
  let ?t = "\<lparr>externalSpec = js ''s'', term_name = js ''t'', ghPageUrl = None,
        xcontent = Some (js ''[[def: t, T]]:'' @ [10] @ js ''~ the text''),
        commitHash = JsString (js ''abc''), sourceFiles = []\<rparr>"
  let ?two = "js ''[[tref:s,t]]'' @ [10] @ js ''[[tref:s,u]]''"
  let ?l = "js ''[[tref: s, t ]] see''"
  have acts: "tref_action two_entry_index (js ''[[tref:s,t]]'')
                = Some (Some (js ''[[tref:s,t]]'' @ [10, 10] @ regenerated_notice @ [10, 10]
                     @ js ''~ Commit Hash: abc'' @ [10] @ js ''~ the text''))"
    "tref_action two_entry_index (js ''[[tref:s,u]]'')
                = Some (Some (js ''[[tref:s,u]]'' @ [10, 10] @ regenerated_notice @ [10, 10]
                     @ js ''~ Commit Hash: null'' @ [10] @ js ''~ other  words''))"
    by (simp_all add: tref_action_def rewritten_file_def tref_eval)
  have two_lines: "split_on 10 ?two = [js ''[[tref:s,t]]'', js ''[[tref:s,u]]'']"
    by (simp add: js_def)
  have ok: "\<forall>b \<in> set (split_on 10 ?two). tref_action two_entry_index b \<noteq> Some None"
    unfolding two_lines using acts by simp
  have a: "processFile two_entry_index ?two
             = js ''[[tref:s,u]]'' @ [10, 10] @ regenerated_notice @ [10, 10]
                 @ js ''~ Commit Hash: null'' @ [10] @ js ''~ other  words''"
    using C9_prepareTref_rewrite [where xtrefs = two_entry_index and contents = ?two,
        THEN conjunct1] ok
    unfolding two_lines by (simp add: acts List.map_filter_simps)
  have lines: "split_on 10 (?l @ [10] @ js ''old text'') = [] @ ?l # [js ''old text'']"
    by (simp add: js_def)
  have bef: "\<forall>b \<in> set []. tref_action two_entry_index b \<noteq> Some None" by simp
  have sw: "startsWith ?l (js ''[[tref:'')" by (simp add: startsWith_def js_def)
  have tm: "tref_match ?l = Some (js ''[[tref: s, t ]]'', js '' s, t '')"
    by (simp add: tref_eval)
  have fnd: "find (\<lambda>x. externalSpec x = hd (map trim (split_on 44 (js '' s, t '')))
                       \<and> Some (term_name x) = nth_opt (map trim (split_on 44 (js '' s, t ''))) 1)
               two_entry_index = Some ?t"
    by (simp add: tref_eval)
  have xc: "xcontent ?t = Some (js ''[[def: t, T]]:'' @ [10] @ js ''~ the text'')" by simp
  have aft: "\<forall>a \<in> set [js ''old text'']. \<not> is_tref_line a"
    by (simp add: is_tref_line_def startsWith_def js_def)
  have segs1: "(\<forall>(pre, inner) \<in> set [([], js ''t, T'')].
           91 \<notin> set pre \<and> (\<forall>ch \<in> set inner. ch \<noteq> 93 \<and> \<not> is_line_terminator ch))
        \<and> 91 \<notin> set ([10] @ js ''~ the text'')"
    by (simp add: js_def is_line_terminator_def)
  have content: "removeDefParts (js ''[[def: t, T]]:'' @ [10] @ js ''~ the text'') = [10] @ js ''~ the text''"
    using C9_prepareTref_rewrite [where segs = "[([], js ''t, T'')]" and post = "[10] @ js ''~ the text''",
        THEN conjunct2, THEN conjunct2, THEN conjunct1] segs1
    by (simp add: js_def)
  have b0: "processFile two_entry_index (?l @ [10] @ js ''old text'') =
            js ''[[tref: s, t ]]'' @ [10, 10] @ regenerated_notice @ [10, 10] @ js ''~ Commit Hash: ''
              @ string_of (commitHash ?t) @ removeDefParts (js ''[[def: t, T]]:'' @ [10] @ js ''~ the text'')"
    using C9_prepareTref_rewrite [where xtrefs = two_entry_index
        and contents = "?l @ [10] @ js ''old text''" and before = "[]" and l = ?l
        and after = "[js ''old text'']" and ?match0.0 = "js ''[[tref: s, t ]]''"
        and ?match1.0 = "js '' s, t ''" and x = ?t
        and c = "js ''[[def: t, T]]:'' @ [10] @ js ''~ the text''", THEN conjunct2, THEN conjunct1]
      lines bef sw tm fnd xc aft
    by blast
  have b: "processFile two_entry_index (?l @ [10] @ js ''old text'')
     = js ''[[tref: s, t ]]'' @ [10, 10] @ regenerated_notice @ [10, 10]
         @ js ''~ Commit Hash: abc'' @ [10] @ js ''~ the text''"
    unfolding b0 content by (simp add: string_of_def js_def)
  have segs2: "(\<forall>(pre, inner) \<in> set [(js ''a '', js ''t, T''), ([10] @ js ''b '', js ''u'')].
           91 \<notin> set pre \<and> (\<forall>ch \<in> set inner. ch \<noteq> 93 \<and> \<not> is_line_terminator ch))
        \<and> 91 \<notin> set (js '' end'')"
    by (simp add: js_def is_line_terminator_def)
  have c: "removeDefParts (js ''a [[def: t, T]]:'' @ [10] @ js ''b [[def: u]]: end'')
     = js ''a '' @ [10] @ js ''b  end''"
    using C9_prepareTref_rewrite [where segs = "[(js ''a '', js ''t, T''), ([10] @ js ''b '', js ''u'')]"
        and post = "js '' end''", THEN conjunct2, THEN conjunct2, THEN conjunct1] segs2
    by (simp add: js_def)
  have ext: "extname (js ''term.md'') = js ''.md''" by (simp add: extname_def js_def)
  have d: "prepareTref two_entry_index ([] @ File (js ''term.md'') (js ''plain'') # [])
       = prepareTref two_entry_index [] @ File (js ''term.md'') (processFile two_entry_index (js ''plain''))
           # prepareTref two_entry_index []"
    using C9_prepareTref_rewrite [where xtrefs = two_entry_index and contents = "js ''plain''"
        and name = "js ''term.md''" and items = "[]" and items' = "[]"] ext
    by blast
  show ?thesis using a b c d by blast
qed

theorem C10_missing_entry_witness:
  "process_lines sample_index (split_on 10 (js ''intro'' @ [10] @ js ''[[tref:s,x]]'' @ [10] @ js ''[[tref:s,t]]''))
       (js ''intro'' @ [10] @ js ''[[tref:s,x]]'' @ [10] @ js ''[[tref:s,t]]'')
     = (js ''intro'' @ [10] @ js ''[[tref:s,x]]'' @ [10] @ js ''[[tref:s,t]]'', True)
   \<and> processFile sample_index (js ''intro'' @ [10] @ js ''[[tref:s,x]]'' @ [10] @ js ''[[tref:s,t]]'')
     = js ''intro'' @ [10] @ js ''[[tref:s,x]]'' @ [10] @ js ''[[tref:s,t]]''"
proof -
  let ?c = "js ''intro'' @ [10] @ js ''[[tref:s,x]]'' @ [10] @ js ''[[tref:s,t]]''"
  let ?l = "js ''[[tref:s,x]]''"
  have lines: "split_on 10 ?c = [js ''intro''] @ ?l # [js ''[[tref:s,t]]'']"
    by (simp add: js_def)
  have bef: "\<forall>b \<in> set [js ''intro'']. \<not> is_tref_line b"
    by (simp add: is_tref_line_def startsWith_def js_def)
  have sw: "startsWith ?l (js ''[[tref:'')" by (simp add: startsWith_def js_def)
  have tm: "tref_match ?l = Some (js ''[[tref:s,x]]'', js ''s,x'')"
    by (simp add: tref_eval)
  have none: "getLocalXTrefContent sample_index (hd (map trim (split_on 44 (js ''s,x''))))
              (nth_opt (map trim (split_on 44 (js ''s,x''))) 1) = None"
    by (simp add: tref_eval)
  show ?thesis
    using C10_missing_entry [where xtrefs = sample_index and contents = ?c
        and before = "[js ''intro'']" and l = ?l and after = "[js ''[[tref:s,t]]'']"
        and ?match0.0 = "js ''[[tref:s,x]]''" and ?match1.0 = "js ''s,x''"]
      lines bef sw tm none
    by blast
qed

end
